theory Spec2Isabelle
  imports Main "HOL-Library.Sublist"
begin

section \<open>Python string primitives used by the search code\<close>

text \<open>
  The code base is Python 2 (\<^verbatim>\<open>print raw_results\<close>, \<^verbatim>\<open>unicode\<close>, \<^verbatim>\<open>cStringIO\<close>):
  \<^verbatim>\<open>/\<close> on two ints is floor division, and \<^verbatim>\<open>filter\<close> returns a list.
  Strings are modelled as \<^typ>\<open>string\<close>; case mapping is the ASCII one.
\<close>

definition lower_char :: "char \<Rightarrow> char" where
  "lower_char c =
     (let n = (of_char c :: nat) in if 65 \<le> n \<and> n \<le> 90 then char_of (n + 32) else c)"

text \<open>\<^verbatim>\<open>s.lower()\<close>\<close>

definition py_lower :: "string \<Rightarrow> string" where
  "py_lower s = map lower_char s"

text \<open>\<^verbatim>\<open>string.whitespace\<close>: tab, newline, vertical tab, form feed, carriage return, space.\<close>

definition is_space :: "char \<Rightarrow> bool" where
  "is_space c = (c \<in> set [CHR 0x09, CHR 0x0A, CHR 0x0B, CHR 0x0C, CHR 0x0D, CHR 0x20])"

text \<open>
  \<^verbatim>\<open>s.split()\<close> with no separator: the maximal runs of non-whitespace characters, in
  order. The first argument is the word being read.
\<close>

fun py_split_acc :: "string \<Rightarrow> string \<Rightarrow> string list" where
  "py_split_acc w [] = (if w = [] then [] else [w])"
| "py_split_acc w (c # cs) =
     (if is_space c then (if w = [] then py_split_acc [] cs else w # py_split_acc [] cs)
      else py_split_acc (w @ [c]) cs)"

definition py_split :: "string \<Rightarrow> string list" where
  "py_split s = py_split_acc [] s"

text \<open>\<^verbatim>\<open>sep.join(xs)\<close>\<close>

fun py_join :: "string \<Rightarrow> string list \<Rightarrow> string" where
  "py_join sep [] = []"
| "py_join sep [x] = x"
| "py_join sep (x # y # ys) = x @ sep @ py_join sep (y # ys)"

text \<open>\<^verbatim>\<open>sub in s\<close> on strings: \<open>sub\<close> occurs in \<open>s\<close> as a contiguous block.\<close>

fun py_in :: "string \<Rightarrow> string \<Rightarrow> bool" where
  "py_in sub [] = (sub = [])"
| "py_in sub (c # cs) = (prefix sub (c # cs) \<or> py_in sub cs)"

text \<open>\<^verbatim>\<open>xs[:m]\<close>: a negative bound counts from the end.\<close>

definition py_slice_to :: "int \<Rightarrow> 'a list \<Rightarrow> 'a list" where
  "py_slice_to m xs = (if 0 \<le> m then take (nat m) xs else take (nat (int (length xs) + m)) xs)"

text \<open>\<^verbatim>\<open>string.punctuation\<close>\<close>

definition punctuation :: string where
  "punctuation =
     [CHR ''!'', CHR 0x22, CHR ''#'', CHR ''$'', CHR ''%'', CHR ''&'', CHR 0x27, CHR ''('',
      CHR '')'', CHR ''*'', CHR ''+'', CHR '','', CHR ''-'', CHR ''.'', CHR ''/'', CHR '':'',
      CHR '';'', CHR ''<'', CHR ''='', CHR ''>'', CHR ''?'', CHR ''@'', CHR ''['', CHR 0x5C,
      CHR '']'', CHR ''^'', CHR ''_'', CHR 0x60, CHR ''{'', CHR ''|'', CHR ''}'', CHR ''~'']"

section \<open>models.py: fuzzy term match and highlighter\<close>

text \<open>
  \<^verbatim>\<open>_match(words)\<close>:
  \<^verbatim>\<open>contained = (words[0] in words[1]) or (words[1] in words[0])\<close>,
  \<^verbatim>\<open>near_size = abs(len(words[0]) - len(words[1])) < (len(words[0]) + len(words[1])) / 6\<close>
  with Python 2 integer division.
\<close>

definition contained :: "string \<times> string \<Rightarrow> bool" where
  "contained words = (py_in (fst words) (snd words) \<or> py_in (snd words) (fst words))"

definition near_size :: "string \<times> string \<Rightarrow> bool" where
  "near_size words =
     (\<bar>int (length (fst words)) - int (length (snd words))\<bar>
        < (int (length (fst words)) + int (length (snd words))) div 6)"

definition match :: "string \<times> string \<Rightarrow> bool" where
  "match words = (contained words \<and> near_size words)"

text \<open>
  \<^verbatim>\<open>_match_highlighter(query, response, tag="b", css_class="highlight")\<close>. Both branches
  of the \<^verbatim>\<open>isinstance(response, unicode)\<close> test build the same \<^verbatim>\<open>depunctuation\<close>:
  delete every character of \<^verbatim>\<open>string.punctuation\<close>. \<^verbatim>\<open>query_set\<close> is only tested
  with \<^verbatim>\<open>any\<close>, so a list stands for the set.
\<close>

definition depunctuation :: "string \<Rightarrow> string" where
  "depunctuation word = filter (\<lambda>c. c \<notin> set punctuation) word"

definition wrap :: "string \<Rightarrow> string \<Rightarrow> string \<Rightarrow> string" where
  "wrap tag css_class text =
     (''<'' @ tag @ '' class='' @ css_class @ ''>'') @ text @ (''</'' @ tag @ ''>'')"

definition query_set :: "string \<Rightarrow> string list" where
  "query_set query = map py_lower (py_split query)"

definition highlight_word :: "string \<Rightarrow> string \<Rightarrow> string \<Rightarrow> string \<Rightarrow> string" where
  "highlight_word tag css_class query word =
     (if list_ex (\<lambda>query_word. match (query_word, depunctuation (py_lower word))) (query_set query)
      then wrap tag css_class word @ '' ''
      else word @ '' '')"

fun highlight_loop :: "string \<Rightarrow> string \<Rightarrow> string \<Rightarrow> string \<Rightarrow> string list \<Rightarrow> string" where
  "highlight_loop tag css_class query bold_response [] = bold_response"
| "highlight_loop tag css_class query bold_response (word # ws) =
     highlight_loop tag css_class query
       (bold_response @ highlight_word tag css_class query word) ws"

definition match_highlighter_full :: "string \<Rightarrow> string \<Rightarrow> string \<Rightarrow> string \<Rightarrow> string" where
  "match_highlighter_full query response tag css_class =
     highlight_loop tag css_class query [] (py_split response)"

definition match_highlighter :: "string \<Rightarrow> string \<Rightarrow> string" where
  "match_highlighter query response = match_highlighter_full query response ''b'' ''highlight''"

section \<open>models.py: snippet generator\<close>

text \<open>
  \<^verbatim>\<open>_snippet_generator(transcript, query, soft_max=50, word_margin=25, bold=True)\<close>.
  The sentence tokenizer (\<^verbatim>\<open>nltk\<close>'s punkt) is not part of the repository: it is the
  parameter \<open>punkt_tokenize\<close>.
\<close>

definition substrings :: "string \<Rightarrow> string list" where
  "substrings query = map py_lower (py_split query)"

definition query_container :: "string list \<Rightarrow> string \<Rightarrow> bool" where
  "query_container subs sentence = list_ex (\<lambda>substring. py_in substring (py_lower sentence)) subs"

text \<open>
  The first \<^verbatim>\<open>for sentence in sentences\<close> loop, with its loop state \<open>(tripped, response)\<close>;
  the \<^verbatim>\<open>break\<close> returns at once.
\<close>

fun first_loop :: "string list \<Rightarrow> int \<Rightarrow> int \<Rightarrow> bool \<Rightarrow> string \<Rightarrow> string list \<Rightarrow> bool \<times> string" where
  "first_loop subs soft_max word_margin tripped response [] = (tripped, response)"
| "first_loop subs soft_max word_margin tripped response (sentence # rest) =
     (if \<not> tripped then
        (if query_container subs sentence
         then first_loop subs soft_max word_margin True (response @ sentence) rest
         else first_loop subs soft_max word_margin tripped response rest)
      else
        (if int (length (py_split response)) + int (length (py_split sentence)) < soft_max
         then first_loop subs soft_max word_margin tripped (response @ '' '' @ sentence) rest
         else (tripped,
               response @ '' '' @ py_join '' '' (py_slice_to word_margin (py_split sentence)))))"

text \<open>The second loop, run when \<^verbatim>\<open>tripped is False\<close>.\<close>

fun second_loop :: "int \<Rightarrow> int \<Rightarrow> string \<Rightarrow> string list \<Rightarrow> string" where
  "second_loop soft_max word_margin response [] = response"
| "second_loop soft_max word_margin response (sentence # rest) =
     (if int (length (py_split response)) + int (length (py_split sentence)) < soft_max
      then second_loop soft_max word_margin (response @ '' '' @ sentence) rest
      else response @ '' '' @ py_join '' '' (py_slice_to word_margin (py_split sentence)))"

text \<open>The body of \<^verbatim>\<open>_snippet_generator\<close> after the tokenizer has run.\<close>

definition snippet_from_sentences :: "string list \<Rightarrow> string \<Rightarrow> int \<Rightarrow> int \<Rightarrow> bool \<Rightarrow> string" where
  "snippet_from_sentences sentences query soft_max word_margin bold =
     (let (tripped, response) = first_loop (substrings query) soft_max word_margin False [] sentences;
          response = (if \<not> tripped then second_loop soft_max word_margin response sentences
                      else response)
      in if bold then match_highlighter query response else response)"

definition snippet_generator ::
  "(string \<Rightarrow> string list) \<Rightarrow> string \<Rightarrow> string \<Rightarrow> int \<Rightarrow> int \<Rightarrow> bool \<Rightarrow> string" where
  "snippet_generator punkt_tokenize transcript query soft_max word_margin bold =
     snippet_from_sentences (punkt_tokenize transcript) query soft_max word_margin bold"

section \<open>models.py: SearchResults.filter\<close>

datatype py_error =
  AttributeError | IndexError | KeyError | TypeError | UnboundLocalError | RequestException

text \<open>
  A value of an entry's \<^verbatim>\<open>_source\<close> dictionary: text, or anything else (a list, a
  number), on which \<^verbatim>\<open>punc.sub\<close> raises \<^verbatim>\<open>TypeError\<close>.
\<close>

datatype source_value = SText string | SOther

text \<open>
  A \<^verbatim>\<open>SearchResult\<close> object. \<^verbatim>\<open>filter\<close> reads only \<^verbatim>\<open>entry.data\<close> (\<open>entry_data\<close>); \<open>oid\<close> is the
  identity of the object, by which the instances are hashed in the returned \<^verbatim>\<open>set\<close>.
\<close>

record search_result =
  oid :: nat
  entry_data :: "string \<rightharpoonup> source_value"

text \<open>\<^verbatim>\<open>strip_punc = lambda s: punc.sub("", s).lower()\<close>\<close>

definition strip_punc :: "string \<Rightarrow> string" where
  "strip_punc s = py_lower (filter (\<lambda>c. c \<notin> set punctuation) s)"

text \<open>
  \<^verbatim>\<open>to_filter = lambda value, entry, field:
     strip_punc(value) in strip_punc(entry.data.get(field, ""))\<close>
\<close>

definition to_filter :: "string \<Rightarrow> search_result \<Rightarrow> string \<Rightarrow> py_error + bool" where
  "to_filter value entry field =
     (case (case entry_data entry field of None \<Rightarrow> SText [] | Some v \<Rightarrow> v) of
        SText t \<Rightarrow> Inr (py_in (strip_punc value) (strip_punc t))
      | SOther \<Rightarrow> Inl TypeError)"

fun filter_entries :: "string \<Rightarrow> string \<Rightarrow> search_result list \<Rightarrow> py_error + search_result list" where
  "filter_entries field value [] = Inr []"
| "filter_entries field value (entry # rest) =
     (case to_filter value entry field of
        Inl e \<Rightarrow> Inl e
      | Inr keep \<Rightarrow>
          (case filter_entries field value rest of
             Inl e \<Rightarrow> Inl e
           | Inr kept \<Rightarrow> Inr (if keep then entry # kept else kept)))"

text \<open>\<^verbatim>\<open>SearchResults.filter(self, field, value)\<close>; \<open>None\<close> is the Python \<^verbatim>\<open>None\<close>.\<close>

definition filter_results ::
  "search_result list \<Rightarrow> string \<Rightarrow> string option \<Rightarrow> py_error + search_result set" where
  "filter_results entries field value =
     (let value = (case value of None \<Rightarrow> [] | Some v \<Rightarrow> v)
      in case filter_entries field value entries of
           Inl e \<Rightarrow> Inl e
         | Inr kept \<Rightarrow> Inr (set kept))"

section \<open>es_requests.py: the request wrapper and ElasticDatabase\<close>

text \<open>
  The \<^verbatim>\<open>requests\<close> library and the network are external. A call either returns a
  \<^verbatim>\<open>Response\<close> object or raises; \<open>RequestException\<close> stands for the class and its
  subclasses (connection errors, timeouts). The network is a parameter that gives the
  outcome of the \<open>n\<close>-th call made so far; the state is the list of the calls made.
\<close>

datatype http_method = Get | Post | Put | Delete

record kwargs =
  kw_data :: "string option"
  kw_attempts :: "int option"

record request =
  req_method :: http_method
  req_url :: string
  req_kwargs :: kwargs

record response =
  content :: string

datatype outcome = Returns response | Raises py_error

type_synonym network = "nat \<Rightarrow> request \<Rightarrow> outcome"

text \<open>
  The \<^verbatim>\<open>for _ in range(attempts)\<close> loop of \<^verbatim>\<open>flaky_request\<close>: \<^verbatim>\<open>break\<close> on a response,
  \<^verbatim>\<open>pass\<close> on \<^verbatim>\<open>RequestException\<close>; any other exception leaves the function. After the
  loop \<^verbatim>\<open>response\<close> is still \<^verbatim>\<open>None\<close> when no call returned.
\<close>

fun attempt_loop ::
  "network \<Rightarrow> request \<Rightarrow> nat \<Rightarrow> request list \<Rightarrow> (py_error + response option) \<times> request list" where
  "attempt_loop net req 0 calls = (Inr None, calls)"
| "attempt_loop net req (Suc n) calls =
     (case net (length calls) req of
        Returns r \<Rightarrow> (Inr (Some r), calls @ [req])
      | Raises e \<Rightarrow>
          (if e = RequestException then attempt_loop net req n (calls @ [req])
           else (Inl e, calls @ [req])))"

text \<open>
  \<^verbatim>\<open>flaky_request(method, url, **kwargs)\<close>: \<^verbatim>\<open>attempts = kwargs.get("attempts", 2)\<close>, and
  \<^verbatim>\<open>range\<close> of a negative number is empty.
\<close>

definition flaky_request ::
  "network \<Rightarrow> http_method \<Rightarrow> string \<Rightarrow> kwargs \<Rightarrow> request list
     \<Rightarrow> (py_error + response option) \<times> request list" where
  "flaky_request net method url kw calls =
     (let attempts = (case kw_attempts kw of None \<Rightarrow> 2 | Some a \<Rightarrow> a)
      in attempt_loop net \<lparr>req_method = method, req_url = url, req_kwargs = kw\<rparr>
           (nat attempts) calls)"

text \<open>
  \<^verbatim>\<open>ElasticDatabase\<close>: \<open>es_url\<close> is \<^verbatim>\<open>self.url\<close>. \<^verbatim>\<open>index_data\<close> receives the document
  already serialised (\<^verbatim>\<open>json.dumps(data)\<close> is external).
\<close>

definition index_data ::
  "network \<Rightarrow> string \<Rightarrow> string \<Rightarrow> string \<Rightarrow> string \<Rightarrow> string \<Rightarrow> request list
     \<Rightarrow> (py_error + response option) \<times> request list" where
  "index_data net es_url index dumped es_type es_id calls =
     flaky_request net Post (py_join ''/'' [es_url, index, es_type, es_id])
       \<lparr>kw_data = Some dumped, kw_attempts = None\<rparr> calls"

definition bulk_index ::
  "network \<Rightarrow> string \<Rightarrow> string \<Rightarrow> request list \<Rightarrow> (py_error + response option) \<times> request list" where
  "bulk_index net es_url all_data calls =
     flaky_request net Post (es_url @ ''/_bulk'') \<lparr>kw_data = Some all_data, kw_attempts = None\<rparr> calls"

definition delete_index ::
  "network \<Rightarrow> string \<Rightarrow> string \<Rightarrow> request list \<Rightarrow> (py_error + response option) \<times> request list" where
  "delete_index net es_url index calls =
     flaky_request net Delete (py_join ''/'' [es_url, index]) \<lparr>kw_data = None, kw_attempts = None\<rparr> calls"

section \<open>es_requests.py: content items\<close>

text \<open>
  A module record of the store. \<open>loc\<close> is its \<^verbatim>\<open>_id\<close>. The \<^verbatim>\<open>data\<close> entry of a
  definition is unicode text, a dictionary (with an optional unicode \<^verbatim>\<open>data\<close> entry of its
  own), or something else; \<open>StrData\<close> is a byte string, which only the \<^verbatim>\<open>""\<close> defaults of
  the code produce.
\<close>

record location =
  tag :: string
  org :: string
  course :: string
  category :: string
  name :: string

datatype data_value = UnicodeData string | StrData string | DictData "string option" | NonTextData

record definition_entry =
  def_data :: "data_value option"

record metadata_entry =
  display_name :: "string option"

record mongo_module =
  loc :: location
  definition_of :: "definition_entry option"
  metadata_of :: "metadata_entry option"

text \<open>\<^verbatim>\<open>video_module.get("definition", {"data": ""}).get("data", "")\<close>\<close>

definition get_definition_data :: "mongo_module \<Rightarrow> data_value" where
  "get_definition_data m =
     (case definition_of m of
        None \<Rightarrow> StrData []
      | Some d \<Rightarrow> (case def_data d of None \<Rightarrow> StrData [] | Some v \<Rightarrow> v))"

text \<open>\<^verbatim>\<open>if isinstance(data, dict): data = data.get("data", "")\<close>\<close>

definition unnest :: "data_value \<Rightarrow> data_value" where
  "unnest v =
     (case v of
        DictData None \<Rightarrow> StrData []
      | DictData (Some u) \<Rightarrow> UnicodeData u
      | _ \<Rightarrow> v)"

text \<open>\<^verbatim>\<open>s.split(sep)\<close> for a one-character separator: the fields, empty ones included.\<close>

fun py_split_sep_acc :: "char \<Rightarrow> string \<Rightarrow> string \<Rightarrow> string list" where
  "py_split_sep_acc sep w [] = [w]"
| "py_split_sep_acc sep w (c # cs) =
     (if c = sep then w # py_split_sep_acc sep [] cs else py_split_sep_acc sep (w @ [c]) cs)"

definition py_split_sep :: "char \<Rightarrow> string \<Rightarrow> string list" where
  "py_split_sep sep s = py_split_sep_acc sep [] s"

text \<open>
  One step of the dictionary comprehension
  \<^verbatim>\<open>{(entry + ":").split(":")[0]: (entry + ":").split(":")[1] for entry in uuids}\<close>.
\<close>

definition speed_entry :: "string \<Rightarrow> py_error + string \<times> string" where
  "speed_entry entry =
     (case py_split_sep CHR '':'' (entry @ '':'') of
        k # v # _ \<Rightarrow> Inr (k, v)
      | _ \<Rightarrow> Inl IndexError)"

fun speed_entries :: "string list \<Rightarrow> py_error + (string \<times> string) list" where
  "speed_entries [] = Inr []"
| "speed_entries (entry # rest) =
     (case speed_entry entry of
        Inl e \<Rightarrow> Inl e
      | Inr kv \<Rightarrow> (case speed_entries rest of Inl e \<Rightarrow> Inl e | Inr kvs \<Rightarrow> Inr (kv # kvs)))"

text \<open>
  \<^verbatim>\<open>speed_map.items()\<close>: a later entry with the same key replaces an earlier one. The order
  in which CPython 2 walks a dictionary follows the hashes of the keys; it is the
  parameter \<open>dict_order\<close>, which arranges the distinct keys.
\<close>

definition dict_items ::
  "(string list \<Rightarrow> string list) \<Rightarrow> (string \<times> string) list \<Rightarrow> (string \<times> string) list" where
  "dict_items dict_order kvs =
     concat (map (\<lambda>k. case map_of (rev kvs) k of None \<Rightarrow> [] | Some v \<Rightarrow> [(k, v)])
                 (dict_order (remdups (map fst kvs))))"

text \<open>The result of \<^verbatim>\<open>uuid_from_video_module\<close>: \<^verbatim>\<open>False\<close> or an identifier.\<close>

datatype uuid_result = NoUuid | Uuid string

definition as_text :: "data_value \<Rightarrow> string option" where
  "as_text v = (case v of UnicodeData d \<Rightarrow> Some d | StrData d \<Rightarrow> Some d | _ \<Rightarrow> None)"

text \<open>
  \<^verbatim>\<open>uuid_from_video_module(self, video_module)\<close>. \<^verbatim>\<open>data.split\<close> on a value that is not
  text raises \<^verbatim>\<open>AttributeError\<close>; \<^verbatim>\<open>[...][0]\<close> on an empty list raises \<^verbatim>\<open>IndexError\<close>.
\<close>

definition uuid_from_video_module ::
  "(string list \<Rightarrow> string list) \<Rightarrow> mongo_module \<Rightarrow> py_error + uuid_result" where
  "uuid_from_video_module dict_order video_module =
     (case as_text (unnest (get_definition_data video_module)) of
        None \<Rightarrow> Inl AttributeError
      | Some d \<Rightarrow>
          (let uuids = py_split_sep CHR '','' d in
           if length uuids = 1 then Inr NoUuid
           else (case speed_entries uuids of
                   Inl e \<Rightarrow> Inl e
                 | Inr speed_map \<Rightarrow>
                     (case filter (\<lambda>(key, value). py_in ''1.0'' key) (dict_items dict_order speed_map) of
                        [] \<Rightarrow> Inl IndexError
                      | (key, value) # _ \<Rightarrow> Inr (Uuid value)))))"

section \<open>es_requests.py: text of a problem\<close>

text \<open>
  The regular expressions of \<^verbatim>\<open>searchable_text_from_problem_data\<close>, each written as the
  scan that \<^verbatim>\<open>re\<close> performs: left to right, the leftmost match first, the next search
  starting where the match ended. \<^verbatim>\<open>.\<close> does not match a newline.

  \<open>lazy_upto close s\<close> is \<^verbatim>\<open>(.*?)\<close> followed by the literal \<open>close\<close>, tried at the start of
  \<open>s\<close>: the shortest newline-free body after which \<open>close\<close> stands.
\<close>

fun lazy_upto :: "string \<Rightarrow> string \<Rightarrow> string option" where
  "lazy_upto close [] = (if close = [] then Some [] else None)"
| "lazy_upto close (c # cs) =
     (if prefix close (c # cs) then Some []
      else if c = CHR 0x0A then None
      else map_option ((#) c) (lazy_upto close cs))"

text \<open>
  \<^verbatim>\<open>re.findall(open + "(.*?)" + close, s)\<close> for non-empty literals \<open>open\<close> and \<open>close\<close>: the
  bodies of the matches. A match at the head of \<open>c # cs\<close> consumes \<open>open\<close>, the body and
  \<open>close\<close>.
\<close>

fun findall_between :: "string \<Rightarrow> string \<Rightarrow> string \<Rightarrow> string list" where
  "findall_between open close [] = []"
| "findall_between open close (c # cs) =
     (if prefix open (c # cs) then
        (case lazy_upto close (drop (length open) (c # cs)) of
           Some body \<Rightarrow>
             body # findall_between open close
                      (drop (length open + length body + length close - 1) cs)
         | None \<Rightarrow> findall_between open close cs)
      else findall_between open close cs)"

text \<open>\<^verbatim>\<open>re.sub(r"\\(.*?\\)", "", s)\<close>: a backslash, a shortest body, a backslash.\<close>

fun sub_backslash_spans :: "string \<Rightarrow> string" where
  "sub_backslash_spans [] = []"
| "sub_backslash_spans (c # cs) =
     (if c = CHR 0x5C then
        (case lazy_upto [CHR 0x5C] cs of
           Some body \<Rightarrow> sub_backslash_spans (drop (length body + 1) cs)
         | None \<Rightarrow> c # sub_backslash_spans cs)
      else c # sub_backslash_spans cs)"

text \<open>The character class \<^verbatim>\<open>[a-zA-Z0-9/\.\= \"\'_-]\<close>.\<close>

definition tag_char :: "char \<Rightarrow> bool" where
  "tag_char c =
     (let n = (of_char c :: nat) in
      (97 \<le> n \<and> n \<le> 122) \<or> (65 \<le> n \<and> n \<le> 90) \<or> (48 \<le> n \<and> n \<le> 57)
      \<or> c \<in> set [CHR ''/'', CHR ''.'', CHR ''='', CHR '' '', CHR 0x22, CHR 0x27, CHR ''_'', CHR ''-''])"

text \<open>
  \<^verbatim>\<open>re.sub(r"<[a-zA-Z0-9/\.\= \"\'_-]+>", "", s)\<close>: the closing bracket is not in
  the class, so the greedy run either is followed by it or the match fails at this
  opening bracket.
\<close>

fun remove_tags :: "string \<Rightarrow> string" where
  "remove_tags [] = []"
| "remove_tags (c # cs) =
     (if c = CHR ''<'' then
        (let run = takeWhile tag_char cs in
         if run \<noteq> [] \<and> prefix ''>'' (drop (length run) cs)
         then remove_tags (drop (length run + 1) cs)
         else c # remove_tags cs)
      else c # remove_tags cs)"

text \<open>\<^verbatim>\<open>re.sub(r"(.)\1{4,}", "", s)\<close>: a run of five or more equal characters is deleted whole.\<close>

fun remove_repetitions :: "string \<Rightarrow> string" where
  "remove_repetitions [] = []"
| "remove_repetitions (c # cs) =
     (let run = takeWhile (\<lambda>x. x = c) cs in
      if c \<noteq> CHR 0x0A \<and> 4 \<le> length run
      then remove_repetitions (drop (length run) cs)
      else c # remove_repetitions cs)"

text \<open>
  \<^verbatim>\<open>text is not "Explanation"\<close> compares object identity, not contents. Every element of
  the list returned by \<^verbatim>\<open>re.findall\<close> is a string object created by that call (and is
  unicode when the payload comes from the store), while \<^verbatim>\<open>"Explanation"\<close> is the constant
  of the code object: the two are never the same object, whatever the text.
\<close>

definition is_not_literal :: "string \<Rightarrow> string \<Rightarrow> bool" where
  "is_not_literal found_text literal = True"

text \<open>
  \<^verbatim>\<open>searchable_text_from_problem_data(self, mongo_element)\<close>. A missing
  \<^verbatim>\<open>definition\<close> or \<^verbatim>\<open>data\<close> key raises \<^verbatim>\<open>KeyError\<close>; \<^verbatim>\<open>re.findall\<close> on a value that is not
  text raises \<^verbatim>\<open>TypeError\<close>.
\<close>

definition searchable_text_from_problem_data :: "mongo_module \<Rightarrow> py_error + string" where
  "searchable_text_from_problem_data mongo_element =
     (case definition_of mongo_element of
        None \<Rightarrow> Inl KeyError
      | Some d \<Rightarrow>
          (case def_data d of
             None \<Rightarrow> Inl KeyError
           | Some v \<Rightarrow>
               (case as_text v of
                  None \<Rightarrow> Inl TypeError
                | Some data \<Rightarrow>
                    (let paragraphs =
                           py_join '' '' (filter (\<lambda>text. is_not_literal text ''Explanation'')
                                                 (findall_between ''<p>'' ''</p>'' data));
                         paragraphs = paragraphs @ '' '';
                         paragraphs = paragraphs @ py_join '' '' (findall_between ''<text>'' ''</text>'' data);
                         cleaned_text = filter (\<lambda>c. c \<noteq> CHR 0x5C) (sub_backslash_spans paragraphs);
                         remove_tags = remove_tags cleaned_text;
                         remove_repetitions = remove_repetitions remove_tags
                     in Inr remove_repetitions))))"

section \<open>es_requests.py: building and submitting documents\<close>

text \<open>
  The value of \<^verbatim>\<open>searchable_text\<close>: text, or the list \<^verbatim>\<open>[""]\<close> that
  \<^verbatim>\<open>find_transcript_for_video_module\<close> returns when it finds no transcript.
\<close>

datatype text_value = Text string | BlankList

text \<open>The dictionary returned by \<^verbatim>\<open>basic_dict\<close>, one field per key.\<close>

record search_document =
  doc_id :: string
  doc_hash :: string
  doc_display_name :: string
  doc_course_id :: string
  doc_searchable_text :: text_value
  doc_thumbnail :: string
  doc_type_hash :: string

text \<open>The result of \<^verbatim>\<open>json.loads(...)["text"]\<close> on a transcript chunk.\<close>

datatype json_text = TextFragments "string list" | JsonValueError | JsonRaises py_error

text \<open>
  What the indexer reaches outside the repository: the iteration order of a dictionary,
  \<^verbatim>\<open>json.dumps\<close>, \<^verbatim>\<open>hashlib.sha1(...).hexdigest()\<close>, the two store lookups
  (\<open>find_course\<close> is \<^verbatim>\<open>module_collection.find_one\<close> for the course element of a course,
  \<open>find_chunk\<close> compiles the name pattern, runs \<^verbatim>\<open>chunk_collection.find_one\<close> and decodes
  the chunk), the JSON decoder, the PDF path (asset lookup, pdfminer, wand), and the
  address of the search engine.
\<close>

record env =
  dict_order :: "string list \<Rightarrow> string list"
  json_dumps_id :: "location \<Rightarrow> string"
  json_dumps_doc :: "search_document \<Rightarrow> string"
  sha1_hexdigest :: "string \<Rightarrow> string"
  find_course :: "string \<Rightarrow> mongo_module option"
  find_chunk :: "string \<Rightarrow> py_error + string option"
  json_loads_text :: "string \<Rightarrow> json_text"
  pdf_searchable_text :: "mongo_module \<Rightarrow> py_error + string"
  pdf_thumbnail :: "mongo_module \<Rightarrow> py_error + string"
  es_url :: string

text \<open>\<^verbatim>\<open>find_transcript_for_video_module(self, video_module)\<close>\<close>

definition find_transcript_for_video_module :: "env \<Rightarrow> mongo_module \<Rightarrow> py_error + text_value" where
  "find_transcript_for_video_module ev video_module =
     (case unnest (get_definition_data video_module) of
        UnicodeData _ \<Rightarrow>
          (case uuid_from_video_module (dict_order ev) video_module of
             Inl e \<Rightarrow> Inl e
           | Inr NoUuid \<Rightarrow> Inr BlankList
           | Inr (Uuid uuid) \<Rightarrow>
               if uuid = [] then Inr BlankList
               else (case find_chunk ev uuid of
                       Inl e \<Rightarrow> Inl e
                     | Inr None \<Rightarrow> Inr BlankList
                     | Inr (Some decoded) \<Rightarrow>
                         if py_in ''com.apple.quar'' decoded then Inr BlankList
                         else (case json_loads_text ev decoded of
                                 TextFragments fragments \<Rightarrow>
                                   Inr (Text (py_join '' '' (filter (\<lambda>f. f \<noteq> []) fragments)))
                               | JsonValueError \<Rightarrow> Inr (Text decoded)
                               | JsonRaises e \<Rightarrow> Inl e)))
      | _ \<Rightarrow> Inr BlankList)"

text \<open>
  \<^verbatim>\<open>thumbnail_from_video_module(self, video_module)\<close>. Here \<^verbatim>\<open>data\<close> is not unnested:
  on a dictionary \<^verbatim>\<open>in\<close> tests the keys, on a value that is not a container it raises.
\<close>

definition thumbnail_from_video_module :: "env \<Rightarrow> mongo_module \<Rightarrow> py_error + string" where
  "thumbnail_from_video_module ev video_module =
     (case (case get_definition_data video_module of
              UnicodeData d \<Rightarrow> Inr (py_in ''player.youku.com'' d)
            | StrData d \<Rightarrow> Inr (py_in ''player.youku.com'' d)
            | DictData _ \<Rightarrow> Inr False
            | NonTextData \<Rightarrow> Inl TypeError) of
        Inl e \<Rightarrow> Inl e
      | Inr youku \<Rightarrow>
          if youku
          then Inr ''https://lh6.ggpht.com/8_h5j6hiFXdSl5atSJDf8bJBy85b3IlzNWeRzOqRurfNVI_oiEG-dB3C0vHRclOG8A=w170''
          else (case uuid_from_video_module (dict_order ev) video_module of
                  Inl e \<Rightarrow> Inl e
                | Inr NoUuid \<Rightarrow> Inr ''http://img.youtube.com/vi/Tt9g2se1LcM/4.jpg''
                | Inr (Uuid uuid) \<Rightarrow> Inr (''http://img.youtube.com/vi/'' @ uuid @ ''/0.jpg'')))"

text \<open>\<^verbatim>\<open>thumbnail_from_html(self, html)\<close>\<close>

definition thumbnail_from_html :: "string \<Rightarrow> string" where
  "thumbnail_from_html html =
     ''<svg xmlns='' @ [CHR 0x27] @ ''http://www.w3.org/2000/svg'' @ [CHR 0x27]
       @ '' width=200 height=200>''
       @ ''<foreignObject width='' @ [CHR 0x27] @ ''100%'' @ [CHR 0x27]
       @ '' height='' @ [CHR 0x27] @ ''100%'' @ [CHR 0x27] @ ''>''
       @ html @ ''</foreignObject></svg>''"

text \<open>\<^verbatim>\<open>course_name_from_mongo_module\<close>: subscripting \<^verbatim>\<open>None\<close> raises \<^verbatim>\<open>TypeError\<close>.\<close>

definition course_name_from_mongo_module :: "env \<Rightarrow> mongo_module \<Rightarrow> py_error + string" where
  "course_name_from_mongo_module ev mongo_module =
     (case find_course ev (course (loc mongo_module)) of
        None \<Rightarrow> Inl TypeError
      | Some course_element \<Rightarrow> Inr (name (loc course_element)))"

text \<open>
  \<^verbatim>\<open>get_searchable_text(self, mongo_module, type_)\<close>: with a type outside the three, the
  local \<^verbatim>\<open>searchable_text\<close> is unbound at the \<^verbatim>\<open>return\<close>.
\<close>

definition get_searchable_text :: "env \<Rightarrow> mongo_module \<Rightarrow> string \<Rightarrow> py_error + text_value" where
  "get_searchable_text ev mongo_module doc_type =
     (if py_lower doc_type = ''pdf'' then
        (case pdf_searchable_text ev mongo_module of Inl e \<Rightarrow> Inl e | Inr t \<Rightarrow> Inr (Text t))
      else if py_lower doc_type = ''problem'' then
        (case searchable_text_from_problem_data mongo_module of
           Inl e \<Rightarrow> Inl e
         | Inr t \<Rightarrow> Inr (Text t))
      else if py_lower doc_type = ''transcript'' then
        find_transcript_for_video_module ev mongo_module
      else Inl UnboundLocalError)"

text \<open>
  \<^verbatim>\<open>get_thumbnail(self, mongo_module, type_)\<close>. In the problem branch
  \<^verbatim>\<open>mongo_module["definition"]["data"]\<close> raises \<^verbatim>\<open>KeyError\<close> on a missing key, and the
  concatenation in \<^verbatim>\<open>thumbnail_from_html\<close> raises \<^verbatim>\<open>TypeError\<close> on a value that is not
  text.
\<close>

definition get_thumbnail :: "env \<Rightarrow> mongo_module \<Rightarrow> string \<Rightarrow> py_error + string" where
  "get_thumbnail ev mongo_module doc_type =
     (if py_lower doc_type = ''pdf'' then pdf_thumbnail ev mongo_module
      else if py_lower doc_type = ''problem'' then
        (case definition_of mongo_module of
           None \<Rightarrow> Inl KeyError
         | Some d \<Rightarrow>
             (case def_data d of
                None \<Rightarrow> Inl KeyError
              | Some v \<Rightarrow>
                  (case as_text v of
                     None \<Rightarrow> Inl TypeError
                   | Some html \<Rightarrow> Inr (thumbnail_from_html html))))
      else if py_lower doc_type = ''transcript'' then
        thumbnail_from_video_module ev mongo_module
      else Inl UnboundLocalError)"

text \<open>
  \<^verbatim>\<open>basic_dict(self, mongo_module, type_)\<close>. The module-level \<^verbatim>\<open>MONGO_COURSE_CACHE\<close> is
  passed in and returned; it keeps an entry written before a later step raises.
  \<^verbatim>\<open>not MONGO_COURSE_CACHE.get(course, False)\<close> holds for a missing key and for a cached
  empty name.
\<close>

definition basic_dict ::
  "env \<Rightarrow> mongo_module \<Rightarrow> string \<Rightarrow> (string \<rightharpoonup> string)
     \<Rightarrow> (py_error + search_document) \<times> (string \<rightharpoonup> string)" where
  "basic_dict ev mongo_module doc_type cache =
     (let ident = json_dumps_id ev (loc mongo_module);
          org_name = org (loc mongo_module);
          course_name = course (loc mongo_module)
      in case (if (case cache course_name of None \<Rightarrow> True | Some cached \<Rightarrow> cached = [])
               then (case course_name_from_mongo_module ev mongo_module of
                       Inl e \<Rightarrow> Inl e
                     | Inr offering \<Rightarrow> Inr (offering, cache(course_name \<mapsto> offering)))
               else (case cache course_name of
                       None \<Rightarrow> Inl KeyError
                     | Some offering \<Rightarrow> Inr (offering, cache))) of
           Inl e \<Rightarrow> (Inl e, cache)
         | Inr (offering, cache') \<Rightarrow>
             (let course_id = py_join ''/'' [org_name, course_name, offering];
                  hash = sha1_hexdigest ev ident;
                  shown_name =
                    (case metadata_of mongo_module of
                       None \<Rightarrow> []
                     | Some md \<Rightarrow> (case display_name md of None \<Rightarrow> [] | Some n \<Rightarrow> n))
                    @ '' ('' @ course_name @ '')''
              in case get_searchable_text ev mongo_module doc_type of
                   Inl e \<Rightarrow> (Inl e, cache')
                 | Inr searchable_text \<Rightarrow>
                     (case get_thumbnail ev mongo_module doc_type of
                        Inl e \<Rightarrow> (Inl e, cache')
                      | Inr thumbnail \<Rightarrow>
                          (Inr \<lparr>doc_id = ident, doc_hash = hash, doc_display_name = shown_name,
                                doc_course_id = course_id, doc_searchable_text = searchable_text,
                                doc_thumbnail = thumbnail,
                                doc_type_hash = sha1_hexdigest ev course_id\<rparr>,
                           cache'))))"

text \<open>\<^verbatim>\<open>data.values()\<close>, and the truth value Python gives each of them.\<close>

definition doc_values :: "search_document \<Rightarrow> text_value list" where
  "doc_values d =
     [Text (doc_id d), Text (doc_hash d), Text (doc_display_name d), Text (doc_course_id d),
      doc_searchable_text d, Text (doc_thumbnail d), Text (doc_type_hash d)]"

fun truthy :: "text_value \<Rightarrow> bool" where
  "truthy (Text s) = (s \<noteq> [])"
| "truthy BlankList = True"

text \<open>\<^verbatim>\<open>filter(None, xs)\<close> of Python 2: the list of the true elements.\<close>

definition py_filter_none :: "text_value list \<Rightarrow> text_value list" where
  "py_filter_none xs = filter truthy xs"

text \<open>\<^verbatim>\<open>s.strip()\<close>\<close>

definition py_strip :: "string \<Rightarrow> string" where
  "py_strip s = rev (dropWhile is_space (rev (dropWhile is_space s)))"

text \<open>
  The state of an indexing run: the course-name cache and the calls made on the network.
\<close>

record run_state =
  course_cache :: "string \<rightharpoonup> string"
  calls :: "request list"

text \<open>
  The last two lines of the loop body of \<^verbatim>\<open>index_course\<close>:
  \<^verbatim>\<open>if filter(None, data.values()) == data.values():
       self.es_instance.index_data(index, data, data["type_hash"], data["hash"]).content\<close>.
  Reading \<^verbatim>\<open>.content\<close> of \<^verbatim>\<open>None\<close> raises \<^verbatim>\<open>AttributeError\<close>.
\<close>

definition submit_if_complete ::
  "env \<Rightarrow> network \<Rightarrow> string \<Rightarrow> search_document \<Rightarrow> request list
     \<Rightarrow> (py_error + unit) \<times> request list" where
  "submit_if_complete ev net index doc cs =
     (if py_filter_none (doc_values doc) = doc_values doc then
        (case index_data net (es_url ev) index (json_dumps_doc ev doc)
                (doc_type_hash doc) (doc_hash doc) cs of
           (Inl e, cs') \<Rightarrow> (Inl e, cs')
         | (Inr None, cs') \<Rightarrow> (Inl AttributeError, cs')
         | (Inr (Some r), cs') \<Rightarrow> (Inr (), cs'))
      else (Inr (), cs))"

text \<open>
  The category dispatch of the loop body: the type passed to \<^verbatim>\<open>basic_dict\<close> and the index,
  or \<open>None\<close> for \<^verbatim>\<open>continue\<close>.
\<close>

definition dispatch :: "mongo_module \<Rightarrow> (string \<times> string) option" where
  "dispatch item =
     (let category = py_strip (py_lower (category (loc item))) in
      if category = ''video'' then Some (''transcript'', ''transcript-index'')
      else if category = ''problem'' then Some (''problem'', ''problem-index'')
      else None)"

text \<open>One pass through the loop body of \<^verbatim>\<open>index_course\<close>.\<close>

definition index_item :: "env \<Rightarrow> network \<Rightarrow> mongo_module \<Rightarrow> run_state \<Rightarrow> (py_error + unit) \<times> run_state" where
  "index_item ev net item st =
     (case dispatch item of
        None \<Rightarrow> (Inr (), st)
      | Some (doc_type, index) \<Rightarrow>
          (case basic_dict ev item doc_type (course_cache st) of
             (Inl e, cache') \<Rightarrow> (Inl e, st\<lparr>course_cache := cache'\<rparr>)
           | (Inr doc, cache') \<Rightarrow>
               (case submit_if_complete ev net index doc (calls st) of
                  (r, cs') \<Rightarrow> (r, \<lparr>course_cache = cache', calls = cs'\<rparr>))))"

text \<open>
  \<^verbatim>\<open>index_course(self, course)\<close>: \<open>cursor\<close> is what \<^verbatim>\<open>find_modules_for_course(course)\<close>
  yields, read once each by \<^verbatim>\<open>cursor.next()\<close>. Nothing in the loop catches an exception:
  the first one ends the run.
\<close>

fun index_course :: "env \<Rightarrow> network \<Rightarrow> mongo_module list \<Rightarrow> run_state \<Rightarrow> (py_error + unit) \<times> run_state" where
  "index_course ev net [] st = (Inr (), st)"
| "index_course ev net (item # cursor) st =
     (case index_item ev net item st of
        (Inl e, st') \<Rightarrow> (Inl e, st')
      | (Inr u, st') \<Rightarrow> index_course ev net cursor st')"

section \<open>Fixtures for concrete runs\<close>

text \<open>A search engine that cannot be reached, and one that answers every call.\<close>

definition unreachable :: network where
  "unreachable n req = Raises RequestException"

definition reachable :: network where
  "reachable n req = Returns \<lparr>content = ''{}''\<rparr>"

text \<open>A network whose first call times out and whose later calls succeed.\<close>

definition fails_once :: network where
  "fails_once n req = (if n = 0 then Raises RequestException else Returns \<lparr>content = ''{}''\<rparr>)"

text \<open>A video module whose definition holds the given data field.\<close>

definition video_with :: "string \<Rightarrow> mongo_module" where
  "video_with d =
     \<lparr>loc = \<lparr>tag = ''i4x'', org = ''MITx'', course = ''6.00x'', category = ''video'', name = ''lecture1''\<rparr>,
      definition_of = Some \<lparr>def_data = Some (UnicodeData d)\<rparr>,
      metadata_of = Some \<lparr>display_name = Some ''Lecture 1''\<rparr>\<rparr>"

text \<open>
  A problem module, the course element of its course, and an environment for concrete
  runs: identifiers are serialised as paths, the digest prefixes its argument, the store
  knows the one course and holds no transcript chunk.
\<close>

definition problem_with :: "string \<Rightarrow> string \<Rightarrow> mongo_module" where
  "problem_with n d =
     \<lparr>loc = \<lparr>tag = ''i4x'', org = ''MITx'', course = ''6.00x'', category = ''problem'', name = n\<rparr>,
      definition_of = Some \<lparr>def_data = Some (UnicodeData d)\<rparr>,
      metadata_of = Some \<lparr>display_name = Some ''Quiz''\<rparr>\<rparr>"

definition course_element :: mongo_module where
  "course_element =
     \<lparr>loc = \<lparr>tag = ''i4x'', org = ''MITx'', course = ''6.00x'', category = ''course'', name = ''2013_Spring''\<rparr>,
      definition_of = None, metadata_of = None\<rparr>"

definition demo_env :: env where
  "demo_env =
     \<lparr>dict_order = (\<lambda>ks. ks),
      json_dumps_id = (\<lambda>l. py_join ''/'' [tag l, org l, course l, category l, name l]),
      json_dumps_doc = (\<lambda>d. doc_id d),
      sha1_hexdigest = (\<lambda>s. ''sha1-'' @ s),
      find_course = (\<lambda>c. if c = ''6.00x'' then Some course_element else None),
      find_chunk = (\<lambda>u. Inr None),
      json_loads_text = (\<lambda>s. JsonValueError),
      pdf_searchable_text = (\<lambda>m. Inr []),
      pdf_thumbnail = (\<lambda>m. Inr []),
      es_url = ''http://localhost:9200''\<rparr>"

definition fresh_run :: run_state where
  "fresh_run = \<lparr>course_cache = Map.empty, calls = []\<rparr>"

text \<open>Two result entries, with a category each and no other field.\<close>

definition entry_a :: search_result where
  "entry_a = \<lparr>oid = 0, entry_data = [''category'' \<mapsto> SText ''PROBLEM TYPE A'']\<rparr>"

definition entry_b :: search_result where
  "entry_b = \<lparr>oid = 1, entry_data = [''category'' \<mapsto> SText ''Video'']\<rparr>"

text \<open>
  Two texts with the sentences a tokenizer returns for them: the three-sentence example,
  and a sentence of 46 words followed by one of 4.
\<close>

definition intro_text :: string where
  "intro_text = ''Intro sentence. History begins here. More details follow with extra words to pad length.''"

definition city_text :: string where
  "city_text = ''In the long history of the city the old walls were rebuilt many times by people who came from far away and who brought with them new tools and new ideas about how a town on a river should be kept safe from floods and fire. It fell soon after.''"

definition example_tokenize :: "string \<Rightarrow> string list" where
  "example_tokenize t =
     (if t = intro_text
      then [''Intro sentence.'', ''History begins here.'',
            ''More details follow with extra words to pad length.'']
      else if t = city_text
      then [''In the long history of the city the old walls were rebuilt many times by people who came from far away and who brought with them new tools and new ideas about how a town on a river should be kept safe from floods and fire.'',
            ''It fell soon after.'']
      else [t])"

section \<open>Vocabulary of the statements\<close>

text \<open>The request by which \<open>index_data\<close> submits a document to an index.\<close>

definition submission :: "env \<Rightarrow> string \<Rightarrow> search_document \<Rightarrow> request" where
  "submission ev index doc =
     \<lparr>req_method = Post,
      req_url = py_join ''/'' [es_url ev, index, doc_type_hash doc, doc_hash doc],
      req_kwargs = \<lparr>kw_data = Some (json_dumps_doc ev doc), kw_attempts = None\<rparr>\<rparr>"

text \<open>Some required field of the document is the empty string.\<close>

definition has_empty_field :: "search_document \<Rightarrow> bool" where
  "has_empty_field doc =
     (doc_id doc = [] \<or> doc_hash doc = [] \<or> doc_display_name doc = [] \<or> doc_course_id doc = []
      \<or> doc_searchable_text doc = Text [] \<or> doc_thumbnail doc = [] \<or> doc_type_hash doc = [])"

text \<open>
  The text of a field of an entry, empty when the entry has no such field (the default of
  \<^verbatim>\<open>entry.data.get(field, "")\<close>).
\<close>

definition field_text :: "search_result \<Rightarrow> string \<Rightarrow> string" where
  "field_text entry field = (case entry_data entry field of Some (SText t) \<Rightarrow> t | _ \<Rightarrow> [])"

text \<open>Lowercasing, then removing all punctuation.\<close>

definition normalise :: "string \<Rightarrow> string" where
  "normalise s = filter (\<lambda>c. c \<notin> set punctuation) (map lower_char s)"

text \<open>The response after the sentences \<open>ss\<close> have been appended in full to \<open>r\<close>.\<close>

definition joined :: "string \<Rightarrow> string list \<Rightarrow> string" where
  "joined r ss = foldl (\<lambda>acc s. acc @ '' '' @ s) r ss"

text \<open>
  Where the accumulation starts: the first sentence that contains a query term, and the
  sentences after it; without such a sentence, the empty response and all sentences.
\<close>

definition starting_point :: "string list \<Rightarrow> string list \<Rightarrow> string \<times> string list" where
  "starting_point subs sentences =
     (case dropWhile (\<lambda>s. \<not> query_container subs s) sentences of
        [] \<Rightarrow> ([], sentences)
      | s # post \<Rightarrow> (s, post))"

text \<open>
  A sentence contains a query term as a case-insensitive substring: some whitespace-separated
  word of the query, lowercased, is a contiguous part of the lowercased sentence.
\<close>

definition has_query_term :: "string \<Rightarrow> string \<Rightarrow> bool" where
  "has_query_term query sentence =
     (\<exists>term\<in>set (py_split query). sublist (py_lower term) (py_lower sentence))"

text \<open>
  The two parts of a \<^verbatim>\<open>speed:identifier\<close> entry: the text before the first colon, and the
  text between the first colon and the second (or the end).
\<close>

definition speed_key :: "string \<Rightarrow> string" where
  "speed_key entry = takeWhile (\<lambda>c. c \<noteq> CHR '':'') entry"

definition speed_value :: "string \<Rightarrow> string" where
  "speed_value entry =
     takeWhile (\<lambda>c. c \<noteq> CHR '':'') (drop 1 (dropWhile (\<lambda>c. c \<noteq> CHR '':'') entry))"

section \<open>Properties of the string primitives\<close>

lemma py_in_sublist: "py_in sub s = sublist sub s"
  by (induction s) (simp_all add: sublist_Cons_right)

section \<open>The fuzzy term matcher\<close>

text \<open>
  Claim C1, as stated: the query term "histories" matches the word "history". It does not:
  "history" ends in "y" where "histories" continues with "ies", so neither string
  contains the other, and the highlighter leaves the word unwrapped.
\<close>

theorem C1_histories_history_counterexample:
  "\<not> match (''histories'', ''history'')
   \<and> match_highlighter ''histories'' ''history'' = ''history ''"
  by code_simp

text \<open>
  Claim C1, amended: a match requires that one string is a contiguous part of the other
  and that the absolute difference of their lengths is less than one sixth of the sum of
  their lengths. The query term "histories" does not match the word "history", since
  neither string contains the other, and does not match "hidden"; the highlighter wraps
  neither word.
\<close>

theorem C1_match_amended:
  "(match (a, b) \<longrightarrow>
      (sublist a b \<or> sublist b a)
      \<and> 6 * \<bar>int (length a) - int (length b)\<bar> < int (length a) + int (length b))
   \<and> \<not> sublist ''history'' ''histories'' \<and> \<not> sublist ''histories'' ''history''
   \<and> \<not> match (''histories'', ''history'') \<and> \<not> match (''histories'', ''hidden'')
   \<and> match_highlighter ''histories'' ''history hidden'' = ''history hidden ''"
proof -
  have gen: "match (a, b) \<longrightarrow>
      (sublist a b \<or> sublist b a)
      \<and> 6 * \<bar>int (length a) - int (length b)\<bar> < int (length a) + int (length b)"
  proof
    assume "match (a, b)"
    then have c: "sublist a b \<or> sublist b a"
      and n: "\<bar>int (length a) - int (length b)\<bar> < (int (length a) + int (length b)) div 6"
      by (simp_all add: match_def contained_def near_size_def py_in_sublist)
    have sixth: "d < s div 6 \<Longrightarrow> 6 * d < s" for d s :: int by presburger
    from n have "6 * \<bar>int (length a) - int (length b)\<bar> < int (length a) + int (length b)"
      by (rule sixth)
    with c show "(sublist a b \<or> sublist b a)
      \<and> 6 * \<bar>int (length a) - int (length b)\<bar> < int (length a) + int (length b)" by (rule conjI)
  qed
  have s1: "\<not> sublist ''history'' ''histories''" by code_simp
  have s2: "\<not> sublist ''histories'' ''history''" by code_simp
  have m1: "\<not> match (''histories'', ''history'')" by code_simp
  have m2: "\<not> match (''histories'', ''hidden'')" by code_simp
  have h: "match_highlighter ''histories'' ''history hidden'' = ''history hidden ''"
    by code_simp
  from gen s1 s2 m1 m2 h show ?thesis by (intro conjI)
qed

text \<open>A pair that does match: a word and itself.\<close>

theorem C1_match_witness:
  "match (''history'', ''history'')
   \<and> sublist ''history'' ''history''
   \<and> 6 * \<bar>int (length ''history'') - int (length ''history'')\<bar>
       < int (length ''history'') + int (length ''history'')"
proof -
  have m: "match (''history'', ''history'')" by code_simp
  from mp[OF C1_match_amended[of "''history''" "''history''", THEN conjunct1] m]
  have "(sublist ''history'' ''history'' \<or> sublist ''history'' ''history'')
      \<and> 6 * \<bar>int (length ''history'') - int (length ''history'')\<bar>
          < int (length ''history'') + int (length ''history'')" .
  then have "sublist ''history'' ''history''"
    and "6 * \<bar>int (length ''history'') - int (length ''history'')\<bar>
          < int (length ''history'') + int (length ''history'')" by (simp_all only: disj_absorb)
  with m show ?thesis by (intro conjI)
qed

section \<open>The request wrapper\<close>

lemma attempt_loop_calls:
  "\<exists>k\<le>n. snd (attempt_loop net req n cs) = cs @ replicate k req"
proof (induction n arbitrary: cs)
  case 0
  then show ?case by simp
next
  case (Suc n)
  show ?case
  proof (cases "net (length cs) req")
    case (Returns r)
    then have "snd (attempt_loop net req (Suc n) cs) = cs @ replicate 1 req" by simp
    then show ?thesis by (metis le_add1 plus_1_eq_Suc)
  next
    case (Raises e)
    show ?thesis
    proof (cases "e = RequestException")
      case True
      from Suc.IH[of "cs @ [req]"] obtain k where k: "k \<le> n"
        "snd (attempt_loop net req n (cs @ [req])) = (cs @ [req]) @ replicate k req" by blast
      have "snd (attempt_loop net req (Suc n) cs) = cs @ replicate (Suc k) req"
        using Raises True k(2) by simp
      with k(1) show ?thesis by (metis Suc_le_mono)
    next
      case False
      with Raises have "snd (attempt_loop net req (Suc n) cs) = cs @ replicate 1 req" by simp
      then show ?thesis by (metis le_add1 plus_1_eq_Suc)
    qed
  qed
qed

lemma attempt_loop_not_request_exception:
  "fst (attempt_loop net req n cs) \<noteq> Inl RequestException"
  by (induction n arbitrary: cs) (auto split: outcome.splits)

lemma attempt_loop_none_iff:
  "fst (attempt_loop net req n cs) = Inr None
     \<longleftrightarrow> (\<forall>i<n. net (length cs + i) req = Raises RequestException)"
proof (induction n arbitrary: cs)
  case 0
  then show ?case by simp
next
  case (Suc n)
  show ?case
  proof (cases "net (length cs) req = Raises RequestException")
    case True
    then have "fst (attempt_loop net req (Suc n) cs) = fst (attempt_loop net req n (cs @ [req]))"
      by simp
    also have "\<dots> = Inr None \<longleftrightarrow> (\<forall>i<n. net (Suc (length cs) + i) req = Raises RequestException)"
      using Suc.IH[of "cs @ [req]"] by simp
    also have "\<dots> \<longleftrightarrow> (\<forall>i<Suc n. net (length cs + i) req = Raises RequestException)"
      using True by (auto simp: less_Suc_eq_0_disj)
    finally show ?thesis .
  next
    case False
    then have "fst (attempt_loop net req (Suc n) cs) \<noteq> Inr None"
      by (auto split: outcome.splits)
    moreover from False have "\<not> (\<forall>i<Suc n. net (length cs + i) req = Raises RequestException)"
      by (metis add.right_neutral zero_less_Suc)
    ultimately show ?thesis by blast
  qed
qed

lemma flaky_request_default_calls:
  "kw_attempts kw = None \<Longrightarrow> length (snd (flaky_request net method url kw cs)) \<le> length cs + 2"
proof -
  assume d: "kw_attempts kw = None"
  obtain k where k: "k \<le> 2"
    "snd (attempt_loop net \<lparr>req_method = method, req_url = url, req_kwargs = kw\<rparr> 2 cs)
       = cs @ replicate k \<lparr>req_method = method, req_url = url, req_kwargs = kw\<rparr>"
    using attempt_loop_calls[of 2 net _ cs] by blast
  from d have "snd (flaky_request net method url kw cs)
      = snd (attempt_loop net \<lparr>req_method = method, req_url = url, req_kwargs = kw\<rparr> 2 cs)"
    by (simp add: flaky_request_def)
  with k show ?thesis by simp
qed

text \<open>
  Claim C9: the wrapper calls the network at most \<open>attempts\<close> times (2 when the caller
  gives none, as \<open>index_data\<close>, \<open>bulk_index\<close> and \<open>delete_index\<close> do), each time with the
  same request; a \<open>RequestException\<close> never leaves it; and it returns \<open>None\<close> exactly when
  every one of the \<open>attempts\<close> calls raises \<open>RequestException\<close>.
\<close>

theorem C9_flaky_request_bounded_retry:
  "(\<exists>k \<le> nat (case kw_attempts kw of None \<Rightarrow> 2 | Some a \<Rightarrow> a).
      snd (flaky_request net method url kw cs)
        = cs @ replicate k \<lparr>req_method = method, req_url = url, req_kwargs = kw\<rparr>)
   \<and> fst (flaky_request net method url kw cs) \<noteq> Inl RequestException
   \<and> (fst (flaky_request net method url kw cs) = Inr None \<longleftrightarrow>
        (\<forall>i < nat (case kw_attempts kw of None \<Rightarrow> 2 | Some a \<Rightarrow> a).
           net (length cs + i) \<lparr>req_method = method, req_url = url, req_kwargs = kw\<rparr>
             = Raises RequestException))
   \<and> length (snd (index_data net base index dumped es_type es_id cs)) \<le> length cs + 2
   \<and> length (snd (bulk_index net base all_data cs)) \<le> length cs + 2
   \<and> length (snd (delete_index net base index cs)) \<le> length cs + 2
   \<and> fst (index_data net base index dumped es_type es_id cs) \<noteq> Inl RequestException
   \<and> fst (bulk_index net base all_data cs) \<noteq> Inl RequestException
   \<and> fst (delete_index net base index cs) \<noteq> Inl RequestException"
proof -
  have a: "\<exists>k \<le> nat (case kw_attempts kw of None \<Rightarrow> 2 | Some a \<Rightarrow> a).
      snd (flaky_request net method url kw cs)
        = cs @ replicate k \<lparr>req_method = method, req_url = url, req_kwargs = kw\<rparr>"
    unfolding flaky_request_def Let_def by (rule attempt_loop_calls)
  have b: "fst (flaky_request net m u k cs) \<noteq> Inl RequestException" for m u k
    unfolding flaky_request_def Let_def by (rule attempt_loop_not_request_exception)
  have c: "fst (flaky_request net method url kw cs) = Inr None \<longleftrightarrow>
        (\<forall>i < nat (case kw_attempts kw of None \<Rightarrow> 2 | Some a \<Rightarrow> a).
           net (length cs + i) \<lparr>req_method = method, req_url = url, req_kwargs = kw\<rparr>
             = Raises RequestException)"
    unfolding flaky_request_def Let_def by (rule attempt_loop_none_iff)
  have d1: "length (snd (index_data net base index dumped es_type es_id cs)) \<le> length cs + 2"
    unfolding index_data_def by (rule flaky_request_default_calls) simp
  have d2: "length (snd (bulk_index net base all_data cs)) \<le> length cs + 2"
    unfolding bulk_index_def by (rule flaky_request_default_calls) simp
  have d3: "length (snd (delete_index net base index cs)) \<le> length cs + 2"
    unfolding delete_index_def by (rule flaky_request_default_calls) simp
  have e1: "fst (index_data net base index dumped es_type es_id cs) \<noteq> Inl RequestException"
    unfolding index_data_def by (rule b)
  have e2: "fst (bulk_index net base all_data cs) \<noteq> Inl RequestException"
    unfolding bulk_index_def by (rule b)
  have e3: "fst (delete_index net base index cs) \<noteq> Inl RequestException"
    unfolding delete_index_def by (rule b)
  from a b c d1 d2 d3 e1 e2 e3 show ?thesis by blast
qed

text \<open>
  The claim at concrete inputs: against an unreachable engine both attempts of
  \<open>bulk_index\<close> fail and the result is \<open>None\<close> after exactly two calls; when only the
  first call fails, the second attempt's response is returned.
\<close>

theorem C9_flaky_request_witness:
  "unreachable 0
        \<lparr>req_method = Post, req_url = ''http://localhost:9200/_bulk'',
         req_kwargs = \<lparr>kw_data = Some ''{}'', kw_attempts = None\<rparr>\<rparr> = Raises RequestException
   \<and> unreachable 1
        \<lparr>req_method = Post, req_url = ''http://localhost:9200/_bulk'',
         req_kwargs = \<lparr>kw_data = Some ''{}'', kw_attempts = None\<rparr>\<rparr> = Raises RequestException
   \<and> flaky_request unreachable Post ''http://localhost:9200/_bulk''
        \<lparr>kw_data = Some ''{}'', kw_attempts = None\<rparr> []
      = (Inr None,
         replicate 2 \<lparr>req_method = Post, req_url = ''http://localhost:9200/_bulk'',
                      req_kwargs = \<lparr>kw_data = Some ''{}'', kw_attempts = None\<rparr>\<rparr>)
   \<and> fst (flaky_request fails_once Post ''http://localhost:9200/_bulk''
        \<lparr>kw_data = Some ''{}'', kw_attempts = None\<rparr> []) = Inr (Some \<lparr>content = ''{}''\<rparr>)"
  using C9_flaky_request_bounded_retry
          [of "\<lparr>kw_data = Some ''{}'', kw_attempts = None\<rparr>" unreachable Post
              "''http://localhost:9200/_bulk''" "[]"]
  by (simp add: flaky_request_def unreachable_def fails_once_def numeral_2_eq_2)

section \<open>Media identifiers\<close>

lemma set_dict_items:
  assumes perm: "set (ordr (remdups (map fst kvs))) = set (remdups (map fst kvs))"
  shows "set (dict_items ordr kvs) = {(k, v). map_of (rev kvs) k = Some v}"
proof -
  have in_keys: "k \<in> set (ordr (remdups (map fst kvs)))" if "map_of (rev kvs) k = Some v" for k v
  proof -
    from that have "(k, v) \<in> set (rev kvs)" by (rule map_of_SomeD)
    then have "k \<in> fst ` set kvs" by force
    with perm show ?thesis by simp
  qed
  have "set (dict_items ordr kvs)
      = (\<Union>k\<in>set (ordr (remdups (map fst kvs))).
            set (case map_of (rev kvs) k of None \<Rightarrow> [] | Some v \<Rightarrow> [(k, v)]))"
    by (simp add: dict_items_def)
  also have "\<dots> = {(k, v). map_of (rev kvs) k = Some v}"
  proof (intro set_eqI iffI)
    fix x
    assume "x \<in> (\<Union>k\<in>set (ordr (remdups (map fst kvs))).
            set (case map_of (rev kvs) k of None \<Rightarrow> [] | Some v \<Rightarrow> [(k, v)]))"
    then obtain k where "x \<in> set (case map_of (rev kvs) k of None \<Rightarrow> [] | Some v \<Rightarrow> [(k, v)])"
      by blast
    then show "x \<in> {(k, v). map_of (rev kvs) k = Some v}"
      by (cases "map_of (rev kvs) k") simp_all
  next
    fix x
    assume "x \<in> {(k, v). map_of (rev kvs) k = Some v}"
    then obtain k v where x: "x = (k, v)" "map_of (rev kvs) k = Some v" by blast
    from in_keys[OF x(2)] x show "x \<in> (\<Union>k\<in>set (ordr (remdups (map fst kvs))).
            set (case map_of (rev kvs) k of None \<Rightarrow> [] | Some v \<Rightarrow> [(k, v)]))"
      by force
  qed
  finally show ?thesis .
qed

lemma length_py_split_sep_acc:
  "length (py_split_sep_acc sep w s) = Suc (length (filter (\<lambda>c. c = sep) s))"
  by (induction s arbitrary: w) simp_all

lemma py_split_sep_single: "length (py_split_sep sep s) = 1 \<longleftrightarrow> sep \<notin> set s"
  by (auto simp add: py_split_sep_def length_py_split_sep_acc filter_empty_conv)

lemma uuid_single_entry:
  assumes "as_text (unnest (get_definition_data m)) = Some d" and "CHR '','' \<notin> set d"
  shows "uuid_from_video_module ordr m = Inr NoUuid"
proof -
  from assms(2) have "length (py_split_sep CHR '','' d) = 1"
    using py_split_sep_single[of "CHR '',''" d] by blast
  with assms(1) show ?thesis
    by (simp add: uuid_from_video_module_def)
qed

lemma py_split_sep_acc_fields:
  "py_split_sep_acc sep w s =
     (case dropWhile (\<lambda>c. c \<noteq> sep) s of
        [] \<Rightarrow> [w @ s]
      | x # rest \<Rightarrow> (w @ takeWhile (\<lambda>c. c \<noteq> sep) s) # py_split_sep_acc sep [] rest)"
proof (induction s arbitrary: w)
  case Nil
  then show ?case by simp
next
  case (Cons c cs)
  show ?case
  proof (cases "c = sep")
    case True
    then show ?thesis by simp
  next
    case False
    then have step: "py_split_sep_acc sep w (c # cs) = py_split_sep_acc sep (w @ [c]) cs"
      and d: "dropWhile (\<lambda>c. c \<noteq> sep) (c # cs) = dropWhile (\<lambda>c. c \<noteq> sep) cs"
      and t: "takeWhile (\<lambda>c. c \<noteq> sep) (c # cs) = c # takeWhile (\<lambda>c. c \<noteq> sep) cs"
      by simp_all
    note ih = Cons.IH[of "w @ [c]"]
    show ?thesis
    proof (cases "dropWhile (\<lambda>c. c \<noteq> sep) cs")
      case Nil
      show ?thesis unfolding step d t ih Nil by simp
    next
      case (Cons x rest)
      show ?thesis unfolding step d t ih Cons by simp
    qed
  qed
qed

lemma takeWhile_snoc_stop: "\<not> P x \<Longrightarrow> takeWhile P (xs @ [x]) = takeWhile P xs"
  by (induction xs) simp_all

lemma dropWhile_snoc_stop: "\<not> P x \<Longrightarrow> dropWhile P (xs @ [x]) = dropWhile P xs @ [x]"
  by (induction xs) simp_all

lemma speed_entry_fields: "speed_entry entry = Inr (speed_key entry, speed_value entry)"
proof -
  let ?P = "\<lambda>c. c \<noteq> CHR '':''"
  have tw: "takeWhile ?P (xs @ '':'') = takeWhile ?P xs" for xs
    using takeWhile_snoc_stop[of ?P "CHR '':''" xs] by simp
  have dw: "dropWhile ?P (xs @ '':'') = dropWhile ?P xs @ '':''" for xs
    using dropWhile_snoc_stop[of ?P "CHR '':''" xs] by simp
  show ?thesis
  proof (cases "dropWhile ?P entry")
    case Nil
    have "py_split_sep CHR '':'' (entry @ '':'') = [speed_key entry, []]"
      unfolding py_split_sep_def
      by (subst py_split_sep_acc_fields) (simp add: dw tw Nil speed_key_def)
    moreover have "speed_value entry = []" by (simp add: speed_value_def Nil)
    ultimately show ?thesis by (simp add: speed_entry_def)
  next
    case (Cons c r)
    have "\<exists>more. py_split_sep_acc CHR '':'' [] (r @ '':'') = takeWhile ?P r # more"
      by (subst py_split_sep_acc_fields) (simp add: dw tw split: list.splits)
    then obtain more where "py_split_sep_acc CHR '':'' [] (r @ '':'') = takeWhile ?P r # more"
      by blast
    then have "py_split_sep CHR '':'' (entry @ '':'') = speed_key entry # takeWhile ?P r # more"
      unfolding py_split_sep_def
      by (subst py_split_sep_acc_fields) (simp add: dw tw Cons speed_key_def)
    moreover have "speed_value entry = takeWhile ?P r" by (simp add: speed_value_def Cons)
    ultimately show ?thesis by (simp add: speed_entry_def)
  qed
qed

lemma speed_entries_fields:
  "speed_entries entries = Inr (map (\<lambda>e. (speed_key e, speed_value e)) entries)"
  by (induction entries) (simp_all add: speed_entry_fields)

lemma py_split_sep_acc_no_sep:
  "sep \<notin> set e \<Longrightarrow> py_split_sep_acc sep w (e @ t) = py_split_sep_acc sep (w @ e) t"
  by (induction e arbitrary: w) auto

lemma py_split_sep_acc_join:
  "\<forall>x\<in>set (e # es). sep \<notin> set x \<Longrightarrow>
     py_split_sep_acc sep w (py_join [sep] (e # es)) = (w @ e) # es"
proof (induction es arbitrary: e w)
  case Nil
  then show ?case using py_split_sep_acc_no_sep[of sep e w "[]"] by simp
next
  case (Cons e2 es)
  from Cons.prems have e: "sep \<notin> set e" and rest: "\<forall>x\<in>set (e2 # es). sep \<notin> set x" by simp_all
  have "py_split_sep_acc sep w (py_join [sep] (e # e2 # es))
      = py_split_sep_acc sep w (e @ sep # py_join [sep] (e2 # es))" by simp
  also have "\<dots> = py_split_sep_acc sep (w @ e) (sep # py_join [sep] (e2 # es))"
    using e by (rule py_split_sep_acc_no_sep)
  also have "\<dots> = (w @ e) # py_split_sep_acc sep [] (py_join [sep] (e2 # es))" by simp
  also have "\<dots> = (w @ e) # e2 # es" using Cons.IH[OF rest, of "[]"] by simp
  finally show ?case .
qed

lemma py_split_sep_join:
  "entries \<noteq> [] \<Longrightarrow> \<forall>x\<in>set entries. sep \<notin> set x \<Longrightarrow>
     py_split_sep sep (py_join [sep] entries) = entries"
  by (cases entries) (simp_all add: py_split_sep_def py_split_sep_acc_join del: py_join.simps)



lemma uuid_multi_entry:
  assumes t: "as_text (unnest (get_definition_data m)) = Some (py_join '','' entries)"
      and many: "2 \<le> length entries"
      and nc: "\<forall>e\<in>set entries. CHR '','' \<notin> set e"
  shows "uuid_from_video_module ordr m =
     (case filter (\<lambda>(key, value). py_in ''1.0'' key)
             (dict_items ordr (map (\<lambda>e. (speed_key e, speed_value e)) entries)) of
        [] \<Rightarrow> Inl IndexError
      | (key, value) # rest \<Rightarrow> Inr (Uuid value))"
proof -
  from many have ne: "entries \<noteq> []" by auto
  have sp: "py_split_sep CHR '','' (py_join '','' entries) = entries"
    using py_split_sep_join[OF ne nc] by simp
  from many have "length entries \<noteq> 1" by simp
  with t sp show ?thesis
    by (simp add: uuid_from_video_module_def speed_entries_fields)
qed


lemma filtered_items_set:
  assumes perm: "\<forall>ks. set (ordr ks) = set ks"
  shows "set (filter (\<lambda>(key, value). py_in ''1.0'' key) (dict_items ordr kvs))
           = {(k, v). map_of (rev kvs) k = Some v \<and> sublist ''1.0'' k}"
proof -
  from perm have "set (ordr (remdups (map fst kvs))) = set (remdups (map fst kvs))" by blast
  then have "set (dict_items ordr kvs) = {(k, v). map_of (rev kvs) k = Some v}"
    by (rule set_dict_items)
  then show ?thesis by (auto simp add: py_in_sublist)
qed


lemma uuid_no_normal_speed:
  assumes perm: "\<forall>ks. set (ordr ks) = set ks"
      and t: "as_text (unnest (get_definition_data m)) = Some (py_join '','' entries)"
      and many: "2 \<le> length entries"
      and nc: "\<forall>e\<in>set entries. CHR '','' \<notin> set e"
      and none: "\<forall>e\<in>set entries. \<not> sublist ''1.0'' (speed_key e)"
  shows "uuid_from_video_module ordr m = Inl IndexError"
proof -
  let ?kvs = "map (\<lambda>e. (speed_key e, speed_value e)) entries"
  let ?L = "filter (\<lambda>(key, value). py_in ''1.0'' key) (dict_items ordr ?kvs)"
  have "set ?L = {}"
  proof -
    have "\<not> (map_of (rev ?kvs) k = Some v \<and> sublist ''1.0'' k)" for k v
    proof
      assume a: "map_of (rev ?kvs) k = Some v \<and> sublist ''1.0'' k"
      then have "(k, v) \<in> set (rev ?kvs)" using map_of_SomeD by fastforce
      then obtain e where "e \<in> set entries" "k = speed_key e" by auto
      with none a show False by blast
    qed
    then show ?thesis unfolding filtered_items_set[OF perm] by blast
  qed
  then have "?L = []" by (rule iffD1[OF set_empty])
  then show ?thesis unfolding uuid_multi_entry[OF t many nc] by simp
qed


lemma uuid_normal_speed:
  assumes perm: "\<forall>ks. set (ordr ks) = set ks"
      and t: "as_text (unnest (get_definition_data m)) = Some (py_join '','' (pre @ entry # post))"
      and many: "pre @ post \<noteq> []"
      and nc: "\<forall>e\<in>set (pre @ entry # post). CHR '','' \<notin> set e"
      and hit: "sublist ''1.0'' (speed_key entry)"
      and later: "\<forall>e\<in>set post. \<not> sublist ''1.0'' (speed_key e)"
      and earlier: "\<forall>e\<in>set pre. sublist ''1.0'' (speed_key e) \<longrightarrow> speed_key e = speed_key entry"
  shows "uuid_from_video_module ordr m = Inr (Uuid (speed_value entry))"
proof -
  let ?kv = "\<lambda>e. (speed_key e, speed_value e)"
  let ?kvs = "map ?kv (pre @ entry # post)"
  let ?L = "filter (\<lambda>(key, value). py_in ''1.0'' key) (dict_items ordr ?kvs)"
  from many have len: "2 \<le> length (pre @ entry # post)"
    by (cases pre; cases post) simp_all
  have rv: "rev ?kvs = rev (map ?kv post) @ ?kv entry # rev (map ?kv pre)" by simp
  have notin: "speed_key entry \<notin> fst ` set (rev (map ?kv post))"
  proof
    assume "speed_key entry \<in> fst ` set (rev (map ?kv post))"
    then obtain e where e: "e \<in> set post" "speed_key e = speed_key entry" by auto
    from later e(1) have "\<not> sublist ''1.0'' (speed_key e)" by blast
    with e(2) hit show False by simp
  qed
  have look: "map_of (rev ?kvs) (speed_key entry) = Some (speed_value entry)"
  proof -
    have "map_of (rev (map ?kv post)) (speed_key entry) = None"
      using notin by (simp add: map_of_eq_None_iff)
    then show ?thesis unfolding rv by (simp add: map_add_def)
  qed
  have only: "k = speed_key entry \<and> v = speed_value entry"
    if a: "map_of (rev ?kvs) k = Some v" and b: "sublist ''1.0'' k" for k v
  proof -
    from a have "(k, v) \<in> set (rev ?kvs)" by (rule map_of_SomeD)
    then obtain e where e: "e \<in> set (pre @ entry # post)" "k = speed_key e" by auto
    from e(1) have "e \<in> set pre \<or> e = entry \<or> e \<in> set post" by auto
    with e(2) b later earlier have k: "k = speed_key entry" by blast
    with a look show ?thesis by simp
  qed
  have "{(k, v). map_of (rev ?kvs) k = Some v \<and> sublist ''1.0'' k}
          = {(speed_key entry, speed_value entry)}"
  proof (intro set_eqI iffI)
    fix x
    assume "x \<in> {(k, v). map_of (rev ?kvs) k = Some v \<and> sublist ''1.0'' k}"
    then obtain k v where x: "x = (k, v)" and a: "map_of (rev ?kvs) k = Some v"
      and b: "sublist ''1.0'' k" by blast
    from only[OF a b] x show "x \<in> {(speed_key entry, speed_value entry)}" by blast
  next
    fix x
    assume "x \<in> {(speed_key entry, speed_value entry)}"
    then have "x = (speed_key entry, speed_value entry)" by blast
    with look hit show "x \<in> {(k, v). map_of (rev ?kvs) k = Some v \<and> sublist ''1.0'' k}"
      by blast
  qed
  then have sL: "set ?L = {(speed_key entry, speed_value entry)}"
    unfolding filtered_items_set[OF perm] .
  have mem: "(speed_key entry, speed_value entry) \<in> set ?L"
    unfolding sL by (rule insertI1)
  have "\<exists>x xs. ?L = x # xs"
  proof (cases ?L)
    case Nil
    from mem have False unfolding Nil by simp
    then show ?thesis ..
  next
    case (Cons x xs)
    then show ?thesis by blast
  qed
  then obtain x xs where L: "?L = x # xs" by blast
  have "x \<in> set ?L" unfolding L by (rule list.set_intros(1))
  then have "x \<in> {(speed_key entry, speed_value entry)}" unfolding sL .
  then have "x = (speed_key entry, speed_value entry)" by (rule singletonD)
  with L have L': "?L = (speed_key entry, speed_value entry) # xs" by (simp only:)
  show ?thesis unfolding uuid_multi_entry[OF t len nc] L' by simp
qed

text \<open>
  Claim C6: a data field without a comma (a single-entry list, such as "0.75:abc") yields
  \<open>False\<close>. For a data field that is a comma-separated list of two or more entries, in
  whatever order the dictionary is walked: when the keys that contain "1.0" are all the same
  key, the result is the identifier of the last entry with that key; when no key contains
  "1.0", \<^verbatim>\<open>[...][0]\<close> raises \<open>IndexError\<close>. So "0.75:abc,1.0:xyz" yields "xyz".
\<close>

theorem C6_uuid_from_video_module:
  "(as_text (unnest (get_definition_data m)) = Some d \<and> CHR '','' \<notin> set d
      \<longrightarrow> uuid_from_video_module ordr m = Inr NoUuid)
   \<and> ((\<forall>ks. set (ordr ks) = set ks)
        \<and> as_text (unnest (get_definition_data m)) = Some (py_join '','' (pre @ entry # post))
        \<and> pre @ post \<noteq> []
        \<and> (\<forall>e\<in>set (pre @ entry # post). CHR '','' \<notin> set e)
        \<and> sublist ''1.0'' (speed_key entry)
        \<and> (\<forall>e\<in>set post. \<not> sublist ''1.0'' (speed_key e))
        \<and> (\<forall>e\<in>set pre. sublist ''1.0'' (speed_key e) \<longrightarrow> speed_key e = speed_key entry)
      \<longrightarrow> uuid_from_video_module ordr m = Inr (Uuid (speed_value entry)))
   \<and> ((\<forall>ks. set (ordr ks) = set ks)
        \<and> as_text (unnest (get_definition_data m)) = Some (py_join '','' entries)
        \<and> 2 \<le> length entries
        \<and> (\<forall>e\<in>set entries. CHR '','' \<notin> set e)
        \<and> (\<forall>e\<in>set entries. \<not> sublist ''1.0'' (speed_key e))
      \<longrightarrow> uuid_from_video_module ordr m = Inl IndexError)
   \<and> (get_definition_data m = UnicodeData ''0.75:abc''
      \<longrightarrow> uuid_from_video_module ordr m = Inr NoUuid)
   \<and> ((\<forall>ks. set (ordr ks) = set ks) \<and> get_definition_data m = UnicodeData ''0.75:abc,1.0:xyz''
      \<longrightarrow> uuid_from_video_module ordr m = Inr (Uuid ''xyz''))"
proof (intro conjI impI)
  assume "as_text (unnest (get_definition_data m)) = Some d \<and> CHR '','' \<notin> set d"
  then show "uuid_from_video_module ordr m = Inr NoUuid"
    using uuid_single_entry by blast
next
  assume a: "(\<forall>ks. set (ordr ks) = set ks)
        \<and> as_text (unnest (get_definition_data m)) = Some (py_join '','' (pre @ entry # post))
        \<and> pre @ post \<noteq> []
        \<and> (\<forall>e\<in>set (pre @ entry # post). CHR '','' \<notin> set e)
        \<and> sublist ''1.0'' (speed_key entry)
        \<and> (\<forall>e\<in>set post. \<not> sublist ''1.0'' (speed_key e))
        \<and> (\<forall>e\<in>set pre. sublist ''1.0'' (speed_key e) \<longrightarrow> speed_key e = speed_key entry)"
  from a show "uuid_from_video_module ordr m = Inr (Uuid (speed_value entry))"
    by (elim conjE) (rule uuid_normal_speed, assumption+)
next
  assume a: "(\<forall>ks. set (ordr ks) = set ks)
        \<and> as_text (unnest (get_definition_data m)) = Some (py_join '','' entries)
        \<and> 2 \<le> length entries
        \<and> (\<forall>e\<in>set entries. CHR '','' \<notin> set e)
        \<and> (\<forall>e\<in>set entries. \<not> sublist ''1.0'' (speed_key e))"
  from a show "uuid_from_video_module ordr m = Inl IndexError"
    by (elim conjE) (rule uuid_no_normal_speed, assumption+)
next
  assume "get_definition_data m = UnicodeData ''0.75:abc''"
  then have "as_text (unnest (get_definition_data m)) = Some ''0.75:abc''"
    by (simp add: unnest_def as_text_def)
  moreover have "CHR '','' \<notin> set ''0.75:abc''" by simp
  ultimately show "uuid_from_video_module ordr m = Inr NoUuid"
    by (rule uuid_single_entry)
next
  assume a: "(\<forall>ks. set (ordr ks) = set ks) \<and> get_definition_data m = UnicodeData ''0.75:abc,1.0:xyz''"
  then have perm: "\<forall>ks. set (ordr ks) = set ks" by (rule conjunct1)
  have j: "py_join '','' ([''0.75:abc''] @ ''1.0:xyz'' # []) = ''0.75:abc,1.0:xyz''" by simp
  from a have t: "as_text (unnest (get_definition_data m))
      = Some (py_join '','' ([''0.75:abc''] @ ''1.0:xyz'' # []))"
    unfolding j by (simp add: unnest_def as_text_def)
  have many: "[''0.75:abc''] @ [] \<noteq> ([] :: string list)" by simp
  have nc: "\<forall>e\<in>set ([''0.75:abc''] @ ''1.0:xyz'' # []). CHR '','' \<notin> set e" by simp
  have k1: "speed_key ''1.0:xyz'' = ''1.0''" by code_simp
  have k0: "speed_key ''0.75:abc'' = ''0.75''" by code_simp
  have v1: "speed_value ''1.0:xyz'' = ''xyz''" by code_simp
  have hit: "sublist ''1.0'' (speed_key ''1.0:xyz'')" unfolding k1 by simp
  have later: "\<forall>e\<in>set ([] :: string list). \<not> sublist ''1.0'' (speed_key e)" by simp
  have n0: "\<not> sublist ''1.0'' ''0.75''" by code_simp
  have earlier: "\<forall>e\<in>set [''0.75:abc'']. sublist ''1.0'' (speed_key e)
      \<longrightarrow> speed_key e = speed_key ''1.0:xyz''"
    using n0 by (simp add: k0)
  from uuid_normal_speed[OF perm t many nc hit later earlier]
  show "uuid_from_video_module ordr m = Inr (Uuid ''xyz'')" unfolding v1 .
qed

text \<open>
  The claim at concrete data fields: a single entry, the two-speed example, a list that
  gives the key "1.0" twice, and a list without a key that contains "1.0".
\<close>

theorem C6_uuid_from_video_module_witness:
  "uuid_from_video_module rev (video_with ''0.75:abc'') = Inr NoUuid
   \<and> uuid_from_video_module rev (video_with ''0.75:abc,1.0:xyz'') = Inr (Uuid ''xyz'')
   \<and> uuid_from_video_module rev (video_with ''1.0:old,0.75:abc,1.0:new'') = Inr (Uuid ''new'')
   \<and> uuid_from_video_module rev (video_with ''0.75:abc,1.25:def'') = Inl IndexError"
proof -
  have perm: "\<forall>ks :: string list. set (rev ks) = set ks" by simp
  have later: "\<forall>e\<in>set ([] :: string list). \<not> sublist ''1.0'' (speed_key e)" by simp
  have a: "uuid_from_video_module rev (video_with ''0.75:abc'') = Inr NoUuid"
  proof -
    have g: "get_definition_data (video_with ''0.75:abc'') = UnicodeData ''0.75:abc''"
      by code_simp
    show ?thesis
      by (rule mp[OF C6_uuid_from_video_module[where m = "video_with ''0.75:abc''" and ordr = rev,
             THEN conjunct2, THEN conjunct2, THEN conjunct2, THEN conjunct1] g])
  qed
  have b: "uuid_from_video_module rev (video_with ''0.75:abc,1.0:xyz'') = Inr (Uuid ''xyz'')"
  proof -
    have t: "as_text (unnest (get_definition_data (video_with ''0.75:abc,1.0:xyz'')))
        = Some (py_join '','' ([''0.75:abc''] @ ''1.0:xyz'' # []))" by code_simp
    have many: "[''0.75:abc''] @ [] \<noteq> ([] :: string list)" by simp
    have nc: "\<forall>e\<in>set ([''0.75:abc''] @ ''1.0:xyz'' # []). CHR '','' \<notin> set e" by code_simp
    have hit: "sublist ''1.0'' (speed_key ''1.0:xyz'')" by code_simp
    have earlier: "\<forall>e\<in>set [''0.75:abc'']. sublist ''1.0'' (speed_key e)
        \<longrightarrow> speed_key e = speed_key ''1.0:xyz''" by code_simp
    have v: "speed_value ''1.0:xyz'' = ''xyz''" by code_simp
    have "uuid_from_video_module rev (video_with ''0.75:abc,1.0:xyz'')
            = Inr (Uuid (speed_value ''1.0:xyz''))"
      by (rule mp[OF C6_uuid_from_video_module[where m = "video_with ''0.75:abc,1.0:xyz''"
             and ordr = rev and pre = "[''0.75:abc'']" and entry = "''1.0:xyz''" and post = "[]",
             THEN conjunct2, THEN conjunct1]])
         (intro conjI perm t many nc hit later earlier)
    then show ?thesis unfolding v .
  qed
  have c: "uuid_from_video_module rev (video_with ''1.0:old,0.75:abc,1.0:new'') = Inr (Uuid ''new'')"
  proof -
    have t: "as_text (unnest (get_definition_data (video_with ''1.0:old,0.75:abc,1.0:new'')))
        = Some (py_join '','' ([''1.0:old'', ''0.75:abc''] @ ''1.0:new'' # []))" by code_simp
    have many: "[''1.0:old'', ''0.75:abc''] @ [] \<noteq> ([] :: string list)" by simp
    have nc: "\<forall>e\<in>set ([''1.0:old'', ''0.75:abc''] @ ''1.0:new'' # []). CHR '','' \<notin> set e"
      by code_simp
    have hit: "sublist ''1.0'' (speed_key ''1.0:new'')" by code_simp
    have earlier: "\<forall>e\<in>set [''1.0:old'', ''0.75:abc'']. sublist ''1.0'' (speed_key e)
        \<longrightarrow> speed_key e = speed_key ''1.0:new''" by code_simp
    have v: "speed_value ''1.0:new'' = ''new''" by code_simp
    have "uuid_from_video_module rev (video_with ''1.0:old,0.75:abc,1.0:new'')
            = Inr (Uuid (speed_value ''1.0:new''))"
      by (rule mp[OF C6_uuid_from_video_module[where m = "video_with ''1.0:old,0.75:abc,1.0:new''"
             and ordr = rev and pre = "[''1.0:old'', ''0.75:abc'']" and entry = "''1.0:new''"
             and post = "[]", THEN conjunct2, THEN conjunct1]])
         (intro conjI perm t many nc hit later earlier)
    then show ?thesis unfolding v .
  qed
  have d: "uuid_from_video_module rev (video_with ''0.75:abc,1.25:def'') = Inl IndexError"
  proof -
    have t: "as_text (unnest (get_definition_data (video_with ''0.75:abc,1.25:def'')))
        = Some (py_join '','' [''0.75:abc'', ''1.25:def''])" by code_simp
    have many: "2 \<le> length [''0.75:abc'', ''1.25:def'']" by simp
    have nc: "\<forall>e\<in>set [''0.75:abc'', ''1.25:def'']. CHR '','' \<notin> set e" by code_simp
    have none: "\<forall>e\<in>set [''0.75:abc'', ''1.25:def'']. \<not> sublist ''1.0'' (speed_key e)"
      by code_simp
    show ?thesis
      by (rule mp[OF C6_uuid_from_video_module[where m = "video_with ''0.75:abc,1.25:def''"
             and ordr = rev and entries = "[''0.75:abc'', ''1.25:def'']",
             THEN conjunct2, THEN conjunct2, THEN conjunct1]])
         (intro conjI perm t many nc none)
  qed
  from a b c d show ?thesis by (intro conjI)
qed

section \<open>Text of a problem\<close>

text \<open>
  Claim C7 at the failing input: a paragraph whose body is exactly "Explanation" is kept.
  The test \<open>is_not_literal\<close> (\<^verbatim>\<open>is not\<close>) never rejects a found paragraph, so the
  placeholder reaches the searchable text, alone or among other paragraphs.
\<close>

theorem C7_explanation_is_kept:
  "searchable_text_from_problem_data (problem_with ''p1'' ''<p>Explanation</p>'')
     = Inr ''Explanation ''
   \<and> searchable_text_from_problem_data
       (problem_with ''p1'' ''<p>What is 2+2?</p><p>Explanation</p><p>Four.</p>'')
     = Inr ''What is 2+2? Explanation Four. ''"
  by code_simp

section \<open>The indexing run\<close>

lemma truthy_iff: "truthy v \<longleftrightarrow> v \<noteq> Text []"
  by (cases v) simp_all

lemma gate_iff:
  "py_filter_none (doc_values doc) = doc_values doc \<longleftrightarrow> \<not> has_empty_field doc"
proof -
  have "py_filter_none (doc_values doc) = doc_values doc \<longleftrightarrow> (\<forall>v\<in>set (doc_values doc). truthy v)"
    unfolding py_filter_none_def by (rule filter_id_conv)
  also have "\<dots> \<longleftrightarrow> \<not> has_empty_field doc"
    by (auto simp add: doc_values_def has_empty_field_def truthy_iff)
  finally show ?thesis .
qed

lemma attempt_loop_at_least_one:
  "\<exists>k. 1 \<le> k \<and> k \<le> Suc n \<and> snd (attempt_loop net req (Suc n) cs) = cs @ replicate k req"
proof (cases "net (length cs) req = Raises RequestException")
  case True
  obtain k where k: "k \<le> n"
    "snd (attempt_loop net req n (cs @ [req])) = (cs @ [req]) @ replicate k req"
    using attempt_loop_calls[of n net req "cs @ [req]"] by blast
  from True k(2) have "snd (attempt_loop net req (Suc n) cs) = cs @ replicate (Suc k) req"
    by simp
  moreover have "1 \<le> Suc k" "Suc k \<le> Suc n" using k(1) by simp_all
  ultimately show ?thesis by blast
next
  case False
  then have "snd (attempt_loop net req (Suc n) cs) = cs @ replicate 1 req"
    by (auto split: outcome.splits)
  moreover have "(1::nat) \<le> 1" "1 \<le> Suc n" by simp_all
  ultimately show ?thesis by blast
qed

lemma index_data_calls:
  "\<exists>k. 1 \<le> k \<and> k \<le> 2
      \<and> snd (index_data net (es_url ev) index (json_dumps_doc ev doc) (doc_type_hash doc) (doc_hash doc) cs)
          = cs @ replicate k (submission ev index doc)"
  using attempt_loop_at_least_one[of 1 net "submission ev index doc" cs]
  by (simp add: index_data_def flaky_request_def submission_def numeral_2_eq_2)

lemma submit_if_complete_skips:
  "has_empty_field doc \<Longrightarrow> submit_if_complete ev net index doc cs = (Inr (), cs)"
  by (simp add: submit_if_complete_def gate_iff)

lemma submit_if_complete_submits:
  assumes "\<not> has_empty_field doc"
  shows "\<exists>k. 1 \<le> k \<and> k \<le> 2
      \<and> snd (submit_if_complete ev net index doc cs) = cs @ replicate k (submission ev index doc)"
proof -
  let ?r = "index_data net (es_url ev) index (json_dumps_doc ev doc) (doc_type_hash doc) (doc_hash doc) cs"
  from assms have "snd (submit_if_complete ev net index doc cs) = snd ?r"
    by (cases ?r) (auto simp add: submit_if_complete_def gate_iff split: sum.splits option.splits)
  with index_data_calls[where net=net and ev=ev and index=index and doc=doc and cs=cs] show ?thesis by simp
qed

lemma index_course_append:
  "index_course ev net (xs @ ys) st =
     (case index_course ev net xs st of
        (Inl e, st') \<Rightarrow> (Inl e, st')
      | (Inr u, st') \<Rightarrow> index_course ev net ys st')"
  by (induction xs arbitrary: st) (auto split: prod.splits sum.splits)

text \<open>
  Claim C2: take an item that the loop reaches (the items before it were processed without
  an exception), that is dispatched (a video or a problem), and for which \<open>basic_dict\<close>
  returns a document. The run goes through the loop body for this item; if some required
  field of the document is the empty string, the body makes no call on the network; if
  none is, it submits the document with \<open>index_data\<close> (one or two attempts of the same
  request).
\<close>

theorem C2_index_course_submits_only_complete:
  assumes before: "index_course ev net before st = (Inr (), st1)"
      and disp: "dispatch item = Some (doc_type, index)"
      and built: "basic_dict ev item doc_type (course_cache st1) = (Inr doc, cache')"
  shows "index_course ev net (before @ item # rest) st =
           (case index_item ev net item st1 of
              (Inl e, st2) \<Rightarrow> (Inl e, st2)
            | (Inr u, st2) \<Rightarrow> index_course ev net rest st2)
         \<and> (has_empty_field doc \<longrightarrow>
               index_item ev net item st1 = (Inr (), \<lparr>course_cache = cache', calls = calls st1\<rparr>))
         \<and> (\<not> has_empty_field doc \<longrightarrow>
               (\<exists>k. 1 \<le> k \<and> k \<le> 2
                  \<and> calls (snd (index_item ev net item st1))
                      = calls st1 @ replicate k (submission ev index doc)))"
proof (intro conjI impI)
  show "index_course ev net (before @ item # rest) st =
           (case index_item ev net item st1 of
              (Inl e, st2) \<Rightarrow> (Inl e, st2)
            | (Inr u, st2) \<Rightarrow> index_course ev net rest st2)"
    using before by (simp add: index_course_append)
next
  assume "has_empty_field doc"
  then show "index_item ev net item st1 = (Inr (), \<lparr>course_cache = cache', calls = calls st1\<rparr>)"
    using disp built by (simp add: index_item_def submit_if_complete_skips)
next
  assume ne: "\<not> has_empty_field doc"
  have "calls (snd (index_item ev net item st1))
          = snd (submit_if_complete ev net index doc (calls st1))"
    using disp built by (simp add: index_item_def split: prod.splits)
  with submit_if_complete_submits[OF ne, where ev=ev and net=net and index=index and cs="calls st1"]
  show "\<exists>k. 1 \<le> k \<and> k \<le> 2
      \<and> calls (snd (index_item ev net item st1)) = calls st1 @ replicate k (submission ev index doc)"
    by simp
qed


theorem C2_index_course_witness:
  "\<not> has_empty_field
       \<lparr>doc_id = ''i4x/MITx/6.00x/problem/p1'', doc_hash = ''sha1-i4x/MITx/6.00x/problem/p1'',
        doc_display_name = ''Quiz (6.00x)'', doc_course_id = ''MITx/6.00x/2013_Spring'',
        doc_searchable_text = Text ''What is 2+2? '',
        doc_thumbnail = thumbnail_from_html ''<p>What is 2+2?</p>'',
        doc_type_hash = ''sha1-MITx/6.00x/2013_Spring''\<rparr>
   \<and> (\<exists>k. 1 \<le> k \<and> k \<le> 2
        \<and> calls (snd (index_item demo_env reachable (problem_with ''p1'' ''<p>What is 2+2?</p>'') fresh_run))
            = calls fresh_run @ replicate k
                (submission demo_env ''problem-index''
                   \<lparr>doc_id = ''i4x/MITx/6.00x/problem/p1'', doc_hash = ''sha1-i4x/MITx/6.00x/problem/p1'',
                    doc_display_name = ''Quiz (6.00x)'', doc_course_id = ''MITx/6.00x/2013_Spring'',
                    doc_searchable_text = Text ''What is 2+2? '',
                    doc_thumbnail = thumbnail_from_html ''<p>What is 2+2?</p>'',
                    doc_type_hash = ''sha1-MITx/6.00x/2013_Spring''\<rparr>))
   \<and> has_empty_field
       \<lparr>doc_id = ''i4x/MITx/6.00x/problem/p0'', doc_hash = ''sha1-i4x/MITx/6.00x/problem/p0'',
        doc_display_name = ''Quiz (6.00x)'', doc_course_id = ''MITx/6.00x/2013_Spring'',
        doc_searchable_text = Text [],
        doc_thumbnail = thumbnail_from_html ''<p></p><p></p><p></p><p></p><p></p>'',
        doc_type_hash = ''sha1-MITx/6.00x/2013_Spring''\<rparr>
   \<and> calls (snd (index_item demo_env reachable
                     (problem_with ''p0'' ''<p></p><p></p><p></p><p></p><p></p>'') fresh_run))
       = calls fresh_run"
proof -
  let ?p1 = "problem_with ''p1'' ''<p>What is 2+2?</p>''"
  let ?p0 = "problem_with ''p0'' ''<p></p><p></p><p></p><p></p><p></p>''"
  let ?d1 = "\<lparr>doc_id = ''i4x/MITx/6.00x/problem/p1'', doc_hash = ''sha1-i4x/MITx/6.00x/problem/p1'',
        doc_display_name = ''Quiz (6.00x)'', doc_course_id = ''MITx/6.00x/2013_Spring'',
        doc_searchable_text = Text ''What is 2+2? '',
        doc_thumbnail = thumbnail_from_html ''<p>What is 2+2?</p>'',
        doc_type_hash = ''sha1-MITx/6.00x/2013_Spring''\<rparr>"
  let ?d0 = "\<lparr>doc_id = ''i4x/MITx/6.00x/problem/p0'', doc_hash = ''sha1-i4x/MITx/6.00x/problem/p0'',
        doc_display_name = ''Quiz (6.00x)'', doc_course_id = ''MITx/6.00x/2013_Spring'',
        doc_searchable_text = Text [],
        doc_thumbnail = thumbnail_from_html ''<p></p><p></p><p></p><p></p><p></p>'',
        doc_type_hash = ''sha1-MITx/6.00x/2013_Spring''\<rparr>"
  have before: "index_course demo_env reachable [] fresh_run = (Inr (), fresh_run)" by simp
  have disp1: "dispatch ?p1 = Some (''problem'', ''problem-index'')" by code_simp
  have disp0: "dispatch ?p0 = Some (''problem'', ''problem-index'')" by code_simp
  have f1: "fst (basic_dict demo_env ?p1 ''problem'' (course_cache fresh_run)) = Inr ?d1"
    by code_simp
  have f0: "fst (basic_dict demo_env ?p0 ''problem'' (course_cache fresh_run)) = Inr ?d0"
    by code_simp
  from f1 have built1: "basic_dict demo_env ?p1 ''problem'' (course_cache fresh_run)
      = (Inr ?d1, snd (basic_dict demo_env ?p1 ''problem'' (course_cache fresh_run)))"
    by (metis prod.collapse)
  from f0 have built0: "basic_dict demo_env ?p0 ''problem'' (course_cache fresh_run)
      = (Inr ?d0, snd (basic_dict demo_env ?p0 ''problem'' (course_cache fresh_run)))"
    by (metis prod.collapse)
  have ne1: "\<not> has_empty_field ?d1" by code_simp
  have e0: "has_empty_field ?d0" by code_simp
  from C2_index_course_submits_only_complete[OF before disp1 built1, of "[]"] ne1
  have a: "\<exists>k. 1 \<le> k \<and> k \<le> 2
        \<and> calls (snd (index_item demo_env reachable ?p1 fresh_run))
            = calls fresh_run @ replicate k (submission demo_env ''problem-index'' ?d1)"
    by blast
  from C2_index_course_submits_only_complete[OF before disp0 built0, of "[]"] e0
  have b: "calls (snd (index_item demo_env reachable ?p0 fresh_run)) = calls fresh_run"
    by simp
  from ne1 a e0 b show ?thesis by blast
qed


text \<open>
  Claim C3 at the failing input: two problems with complete documents, the engine
  unreachable. Both attempts for the first document fail, \<open>index_data\<close> returns \<open>None\<close>,
  reading \<^verbatim>\<open>.content\<close> raises \<open>AttributeError\<close>, and the run ends there: the second
  problem is never submitted. Against a reachable engine both are.
\<close>

theorem C3_null_response_aborts_run:
  "fst (index_course demo_env unreachable
          [problem_with ''p1'' ''<p>What is 2+2?</p>'', problem_with ''p2'' ''<p>What is 3+3?</p>'']
          fresh_run)
     = Inl AttributeError
   \<and> map req_url (calls (snd (index_course demo_env unreachable
          [problem_with ''p1'' ''<p>What is 2+2?</p>'', problem_with ''p2'' ''<p>What is 3+3?</p>'']
          fresh_run)))
     = [''http://localhost:9200/problem-index/sha1-MITx/6.00x/2013_Spring/sha1-i4x/MITx/6.00x/problem/p1'',
        ''http://localhost:9200/problem-index/sha1-MITx/6.00x/2013_Spring/sha1-i4x/MITx/6.00x/problem/p1'']
   \<and> fst (index_course demo_env reachable
          [problem_with ''p1'' ''<p>What is 2+2?</p>'', problem_with ''p2'' ''<p>What is 3+3?</p>'']
          fresh_run)
     = Inr ()
   \<and> map req_url (calls (snd (index_course demo_env reachable
          [problem_with ''p1'' ''<p>What is 2+2?</p>'', problem_with ''p2'' ''<p>What is 3+3?</p>'']
          fresh_run)))
     = [''http://localhost:9200/problem-index/sha1-MITx/6.00x/2013_Spring/sha1-i4x/MITx/6.00x/problem/p1'',
        ''http://localhost:9200/problem-index/sha1-MITx/6.00x/2013_Spring/sha1-i4x/MITx/6.00x/problem/p2'']"
  by code_simp

section \<open>Filtering result entries\<close>

lemma punctuation_fixed: "list_all (\<lambda>c. lower_char c = c) punctuation"
  by code_simp

lemma punctuation_not_lower_case:
  "list_all (\<lambda>p. \<not> (97 \<le> (of_char p :: nat) \<and> (of_char p :: nat) \<le> 122)) punctuation"
  by code_simp

lemma lower_char_punctuation: "lower_char c \<in> set punctuation \<longleftrightarrow> c \<in> set punctuation"
proof
  assume "c \<in> set punctuation"
  with punctuation_fixed have "lower_char c = c" by (simp add: list_all_iff)
  with \<open>c \<in> set punctuation\<close> show "lower_char c \<in> set punctuation" by simp
next
  assume l: "lower_char c \<in> set punctuation"
  show "c \<in> set punctuation"
  proof (cases "65 \<le> (of_char c :: nat) \<and> (of_char c :: nat) \<le> 90")
    case False
    then have "lower_char c = c" by (auto simp add: lower_char_def Let_def)
    with l show ?thesis by simp
  next
    case True
    then have "lower_char c = char_of (of_char c + 32 :: nat)" by (simp add: lower_char_def Let_def)
    then have "(of_char (lower_char c) :: nat) = (of_char c + 32) mod 256" by simp
    with True have "97 \<le> (of_char (lower_char c) :: nat) \<and> (of_char (lower_char c) :: nat) \<le> 122"
      by simp
    moreover from l punctuation_not_lower_case
    have "\<not> (97 \<le> (of_char (lower_char c) :: nat) \<and> (of_char (lower_char c) :: nat) \<le> 122)"
      by (simp add: list_all_iff)
    ultimately show ?thesis by blast
  qed
qed

lemma strip_punc_normalise: "strip_punc s = normalise s"
proof -
  have "filter (\<lambda>c. c \<notin> set punctuation) (map lower_char s)
      = map lower_char (filter ((\<lambda>c. c \<notin> set punctuation) \<circ> lower_char) s)"
    by (rule filter_map)
  also have "(\<lambda>c. c \<notin> set punctuation) \<circ> lower_char = (\<lambda>c. c \<notin> set punctuation)"
    by (rule ext) (simp add: lower_char_punctuation)
  finally show ?thesis by (simp add: strip_punc_def normalise_def py_lower_def)
qed

lemma filter_entries_text:
  assumes "\<forall>e\<in>set entries. entry_data e field \<noteq> Some SOther"
  shows "filter_entries field v entries
     = Inr (filter (\<lambda>e. py_in (strip_punc v) (strip_punc (field_text e field))) entries)"
  using assms
proof (induction entries)
  case Nil
  then show ?case by simp
next
  case (Cons e entries)
  from Cons.prems have e: "entry_data e field \<noteq> Some SOther" by simp
  have "to_filter v e field = Inr (py_in (strip_punc v) (strip_punc (field_text e field)))"
  proof (cases "entry_data e field")
    case None
    then show ?thesis by (simp add: to_filter_def field_text_def)
  next
    case (Some sv)
    with e show ?thesis by (cases sv) (simp_all add: to_filter_def field_text_def)
  qed
  moreover from Cons have "filter_entries field v entries
     = Inr (filter (\<lambda>e. py_in (strip_punc v) (strip_punc (field_text e field))) entries)" by simp
  ultimately show ?case by simp
qed

lemma py_in_nil: "py_in [] s"
  by (simp add: py_in_sublist)

lemma strip_punc_nil: "strip_punc [] = []"
  by (simp add: strip_punc_def py_lower_def)

text \<open>
  Claim C8: when the field of every entry is text or absent, \<open>filter\<close> returns exactly the
  set of the entries whose field text, lowercased and with all punctuation removed,
  contains the value (the empty string for \<open>None\<close>), lowercased and with all punctuation
  removed, as a contiguous part.
  Filtering "category" with "Problem" keeps the entry whose category is "PROBLEM TYPE A"
  and drops the one whose category is "Video".
\<close>

theorem C8_filter_is_normalised_containment:
  "((\<forall>e\<in>set entries. entry_data e field \<noteq> Some SOther) \<longrightarrow>
      filter_results entries field v
        = Inr {e \<in> set entries.
                 sublist (normalise (case v of None \<Rightarrow> [] | Some text \<Rightarrow> text))
                         (normalise (field_text e field))})
   \<and> filter_results [entry_a, entry_b] ''category'' (Some ''Problem'') = Inr {entry_a}"
proof (intro conjI impI)
  assume "\<forall>e\<in>set entries. entry_data e field \<noteq> Some SOther"
  then show "filter_results entries field v
        = Inr {e \<in> set entries.
                 sublist (normalise (case v of None \<Rightarrow> [] | Some text \<Rightarrow> text))
                         (normalise (field_text e field))}"
    by (simp add: filter_results_def filter_entries_text py_in_sublist strip_punc_normalise)
next
  have ta: "field_text entry_a ''category'' = ''PROBLEM TYPE A''"
    by (simp add: field_text_def entry_a_def)
  have tb: "field_text entry_b ''category'' = ''Video''"
    by (simp add: field_text_def entry_b_def)
  have ok: "\<forall>e\<in>set [entry_a, entry_b]. entry_data e ''category'' \<noteq> Some SOther"
    by (simp add: entry_a_def entry_b_def)
  have ma: "py_in (strip_punc ''Problem'') (strip_punc ''PROBLEM TYPE A'')" by code_simp
  have mb: "\<not> py_in (strip_punc ''Problem'') (strip_punc ''Video'')" by code_simp
  have "filter_entries ''category'' ''Problem'' [entry_a, entry_b] = Inr [entry_a]"
    unfolding filter_entries_text[OF ok] using ma mb ta tb by simp
  then show "filter_results [entry_a, entry_b] ''category'' (Some ''Problem'') = Inr {entry_a}"
    unfolding filter_results_def by (simp del: filter_entries.simps)
qed

theorem C8_filter_witness:
  "filter_results [entry_b, entry_a] ''category'' (Some ''Problem'')
     = Inr {e \<in> set [entry_b, entry_a].
              sublist (normalise ''Problem'') (normalise (field_text e ''category''))}
   \<and> sublist (normalise ''Problem'') (normalise (field_text entry_a ''category''))"
proof -
  have ok: "\<forall>e\<in>set [entry_b, entry_a]. entry_data e ''category'' \<noteq> Some SOther"
    by (simp add: entry_a_def entry_b_def)
  have ta: "field_text entry_a ''category'' = ''PROBLEM TYPE A''"
    by (simp add: field_text_def entry_a_def)
  have "py_in (normalise ''Problem'') (normalise ''PROBLEM TYPE A'')" by code_simp
  then have "sublist (normalise ''Problem'') (normalise (field_text entry_a ''category''))"
    by (simp only: ta py_in_sublist)
  with C8_filter_is_normalised_containment[of "[entry_b, entry_a]" "''category''" "Some ''Problem''"] ok
  show ?thesis by simp
qed

text \<open>
  Claim C10: with \<open>None\<close> or the empty string as value, \<open>filter\<close> returns the set of all
  entries (the field being text, empty text, or absent): the empty string is part of every
  string.
\<close>

theorem C10_empty_value_matches_all:
  "(\<forall>e\<in>set entries. entry_data e field \<noteq> Some SOther) \<longrightarrow>
      filter_results entries field None = Inr (set entries)
      \<and> filter_results entries field (Some []) = Inr (set entries)"
  by (simp add: filter_results_def filter_entries_text py_in_nil strip_punc_nil)


theorem C10_empty_value_witness:
  "filter_results [entry_a, entry_b] ''category'' None = Inr {entry_a, entry_b}
   \<and> filter_results [entry_a, entry_b] ''category'' (Some []) = Inr {entry_a, entry_b}
   \<and> filter_results [entry_a, entry_b] ''course_id'' None = Inr {entry_a, entry_b}"
proof -
  have ok: "\<forall>e\<in>set [entry_a, entry_b]. entry_data e ''category'' \<noteq> Some SOther"
    by (simp add: entry_a_def entry_b_def)
  have ok2: "\<forall>e\<in>set [entry_a, entry_b]. entry_data e ''course_id'' \<noteq> Some SOther"
    by (simp add: entry_a_def entry_b_def)
  from C10_empty_value_matches_all[of "[entry_a, entry_b]" "''category''"] ok
       C10_empty_value_matches_all[of "[entry_a, entry_b]" "''course_id''"] ok2
  show ?thesis by simp
qed


section \<open>The snippet generator\<close>

lemma first_loop_skip:
  "\<forall>p\<in>set pre. \<not> query_container subs p \<Longrightarrow>
     first_loop subs sm wm False r (pre @ rest) = first_loop subs sm wm False r rest"
  by (induction pre) simp_all

lemma first_loop_tripped:
  "first_loop subs sm wm True r ss = (True, second_loop sm wm r ss)"
  by (induction ss arbitrary: r) simp_all

lemma first_loop_unmatched:
  "\<forall>p\<in>set ss. \<not> query_container subs p \<Longrightarrow> first_loop subs sm wm False r ss = (False, r)"
  by (induction ss) simp_all

lemma snippet_matched:
  assumes "sentences = pre @ s # post"
      and "\<forall>p\<in>set pre. \<not> query_container (substrings query) p"
      and "query_container (substrings query) s"
  shows "snippet_from_sentences sentences query sm wm False = second_loop sm wm s post"
proof -
  have "first_loop (substrings query) sm wm False [] sentences
      = first_loop (substrings query) sm wm False [] (s # post)"
    unfolding assms(1) using assms(2) by (rule first_loop_skip)
  also have "\<dots> = (True, second_loop sm wm s post)"
    using assms(3) by (simp add: first_loop_tripped)
  finally show ?thesis by (simp add: snippet_from_sentences_def)
qed

lemma snippet_unmatched:
  assumes "\<forall>p\<in>set sentences. \<not> query_container (substrings query) p"
  shows "snippet_from_sentences sentences query sm wm False = second_loop sm wm [] sentences"
  using first_loop_unmatched[OF assms, of sm wm "[]"] by (simp add: snippet_from_sentences_def)

lemma snippet_bold:
  "snippet_from_sentences sentences query sm wm True
     = match_highlighter query (snippet_from_sentences sentences query sm wm False)"
  by (simp add: snippet_from_sentences_def Let_def split: prod.splits)

lemma second_loop_shape:
  "second_loop sm wm r ss = r \<or> (\<exists>t. second_loop sm wm r ss = r @ '' '' @ t)"
proof (induction ss arbitrary: r)
  case Nil
  then show ?case by simp
next
  case (Cons s ss)
  show ?case
  proof (cases "int (length (py_split r)) + int (length (py_split s)) < sm")
    case True
    from Cons[of "r @ '' '' @ s"] True show ?thesis by auto
  next
    case False
    then show ?thesis by simp
  qed
qed

lemma py_split_acc_space:
  "is_space sp \<Longrightarrow> py_split_acc w (a @ sp # b) = py_split_acc w a @ py_split_acc [] b"
  by (induction a arbitrary: w) simp_all

lemma py_split_space: "py_split (a @ CHR '' '' # b) = py_split a @ py_split b"
proof -
  have "is_space CHR '' ''" by (simp add: is_space_def)
  then show ?thesis using py_split_acc_space[of "CHR '' ''" "[]" a b] by (simp add: py_split_def)
qed

lemma second_loop_words: "\<exists>ws. py_split (second_loop sm wm r ss) = py_split r @ ws"
  using second_loop_shape[of sm wm r ss] by (auto simp add: py_split_space)

lemma highlight_loop_acc:
  "highlight_loop tg css q acc ws = acc @ highlight_loop tg css q [] ws"
proof (induction ws arbitrary: acc)
  case Nil
  then show ?case by simp
next
  case (Cons w ws)
  have "highlight_loop tg css q acc (w # ws)
      = highlight_loop tg css q (acc @ highlight_word tg css q w) ws" by simp
  also have "\<dots> = (acc @ highlight_word tg css q w) @ highlight_loop tg css q [] ws"
    by (rule Cons)
  also have "\<dots> = acc @ highlight_loop tg css q (highlight_word tg css q w) ws"
    using Cons[of "highlight_word tg css q w"] by simp
  finally show ?case by simp
qed

lemma highlight_loop_append:
  "highlight_loop tg css q acc (a @ b)
     = highlight_loop tg css q acc a @ highlight_loop tg css q [] b"
proof (induction a arbitrary: acc)
  case Nil
  then show ?case using highlight_loop_acc[of tg css q acc b] by simp
next
  case (Cons w a)
  then show ?case by simp
qed

lemma match_highlighter_prefix:
  "py_split x = py_split s @ ws \<Longrightarrow> \<exists>rest. match_highlighter query x = match_highlighter query s @ rest"
  by (simp add: match_highlighter_def match_highlighter_full_def highlight_loop_append)


lemma snippet_start_by_container:
  "(punkt_tokenize transcript = pre @ s # post
      \<and> (\<forall>p\<in>set pre. \<not> query_container (substrings query) p)
      \<and> query_container (substrings query) s
    \<longrightarrow> (\<exists>rest. snippet_generator punkt_tokenize transcript query soft_max word_margin False
                    = s @ rest)
        \<and> (\<exists>rest. snippet_generator punkt_tokenize transcript query soft_max word_margin True
                    = match_highlighter query s @ rest))
   \<and> ((\<forall>p\<in>set (punkt_tokenize transcript). \<not> query_container (substrings query) p)
    \<longrightarrow> snippet_generator punkt_tokenize transcript query soft_max word_margin False
          = second_loop soft_max word_margin [] (punkt_tokenize transcript)
        \<and> (\<forall>s1 rest. punkt_tokenize transcript = s1 # rest \<longrightarrow>
              (\<exists>tail. snippet_generator punkt_tokenize transcript query soft_max word_margin False
                 = '' '' @ (if int (length (py_split s1)) < soft_max then s1
                            else py_join '' '' (py_slice_to word_margin (py_split s1))) @ tail)))
   \<and> snippet_generator punkt_tokenize transcript query soft_max word_margin True
       = match_highlighter query
           (snippet_generator punkt_tokenize transcript query soft_max word_margin False)"
proof (intro conjI impI allI)
  assume a: "punkt_tokenize transcript = pre @ s # post
      \<and> (\<forall>p\<in>set pre. \<not> query_container (substrings query) p)
      \<and> query_container (substrings query) s"
  then have raw: "snippet_generator punkt_tokenize transcript query soft_max word_margin False
      = second_loop soft_max word_margin s post"
    unfolding snippet_generator_def by (intro snippet_matched) auto
  from second_loop_shape[of soft_max word_margin s post] raw
  show "\<exists>rest. snippet_generator punkt_tokenize transcript query soft_max word_margin False = s @ rest"
    by (metis append_Nil2)
  obtain ws where "py_split (second_loop soft_max word_margin s post) = py_split s @ ws"
    using second_loop_words by blast
  then have "\<exists>rest. match_highlighter query (second_loop soft_max word_margin s post)
      = match_highlighter query s @ rest"
    by (rule match_highlighter_prefix)
  with raw show "\<exists>rest. snippet_generator punkt_tokenize transcript query soft_max word_margin True
      = match_highlighter query s @ rest"
    by (simp add: snippet_generator_def snippet_bold)
next
  assume "\<forall>p\<in>set (punkt_tokenize transcript). \<not> query_container (substrings query) p"
  then show "snippet_generator punkt_tokenize transcript query soft_max word_margin False
          = second_loop soft_max word_margin [] (punkt_tokenize transcript)"
    unfolding snippet_generator_def by (rule snippet_unmatched)
next
  fix s1 rest
  assume un: "\<forall>p\<in>set (punkt_tokenize transcript). \<not> query_container (substrings query) p"
     and t: "punkt_tokenize transcript = s1 # rest"
  from un have raw: "snippet_generator punkt_tokenize transcript query soft_max word_margin False
          = second_loop soft_max word_margin [] (s1 # rest)"
    unfolding snippet_generator_def t[symmetric] by (rule snippet_unmatched)
  have e: "py_split [] = []" by (simp add: py_split_def)
  show "\<exists>tail. snippet_generator punkt_tokenize transcript query soft_max word_margin False
                 = '' '' @ (if int (length (py_split s1)) < soft_max then s1
                            else py_join '' '' (py_slice_to word_margin (py_split s1))) @ tail"
  proof (cases "int (length (py_split s1)) < soft_max")
    case True
    then have "second_loop soft_max word_margin [] (s1 # rest)
        = second_loop soft_max word_margin ('' '' @ s1) rest" by (simp add: e)
    moreover from second_loop_shape[of soft_max word_margin "'' '' @ s1" rest]
    have "\<exists>tail. second_loop soft_max word_margin ('' '' @ s1) rest = ('' '' @ s1) @ tail"
      by (metis append_Nil2)
    ultimately show ?thesis using raw True by auto
  next
    case False
    then have "second_loop soft_max word_margin [] (s1 # rest)
        = '' '' @ py_join '' '' (py_slice_to word_margin (py_split s1))" by (simp add: e)
    with raw False show ?thesis by simp
  qed
next
  show "snippet_generator punkt_tokenize transcript query soft_max word_margin True
       = match_highlighter query
           (snippet_generator punkt_tokenize transcript query soft_max word_margin False)"
    by (simp add: snippet_generator_def snippet_bold)
qed

lemma query_container_iff:
  "query_container (substrings query) sentence \<longleftrightarrow> has_query_term query sentence"
  by (auto simp add: query_container_def substrings_def has_query_term_def list_ex_iff py_in_sublist)

text \<open>
  Claim C4: when some sentence contains a query term (case-insensitively), the text the
  generator accumulates begins with the first such sentence, and the highlighted snippet
  begins with the highlighted words of that sentence. When no sentence contains a query
  term, the text is accumulated by the second loop from the empty response over all
  sentences, so it begins, after the joining space, with the first sentence (or with its
  first \<open>word_margin\<close> words when the sentence alone reaches \<open>soft_max\<close>). The snippet with
  \<open>bold\<close> is the highlighter applied to the snippet without.
\<close>

theorem C4_snippet_starts_at_first_match:
  "(punkt_tokenize transcript = pre @ s # post
      \<and> (\<forall>p\<in>set pre. \<not> has_query_term query p)
      \<and> has_query_term query s
    \<longrightarrow> (\<exists>rest. snippet_generator punkt_tokenize transcript query soft_max word_margin False
                    = s @ rest)
        \<and> (\<exists>rest. snippet_generator punkt_tokenize transcript query soft_max word_margin True
                    = match_highlighter query s @ rest))
   \<and> ((\<forall>p\<in>set (punkt_tokenize transcript). \<not> has_query_term query p)
    \<longrightarrow> snippet_generator punkt_tokenize transcript query soft_max word_margin False
          = second_loop soft_max word_margin [] (punkt_tokenize transcript)
        \<and> (\<forall>s1 rest. punkt_tokenize transcript = s1 # rest \<longrightarrow>
              (\<exists>tail. snippet_generator punkt_tokenize transcript query soft_max word_margin False
                 = '' '' @ (if int (length (py_split s1)) < soft_max then s1
                            else py_join '' '' (py_slice_to word_margin (py_split s1))) @ tail)))
   \<and> snippet_generator punkt_tokenize transcript query soft_max word_margin True
       = match_highlighter query
           (snippet_generator punkt_tokenize transcript query soft_max word_margin False)"
  using snippet_start_by_container[of punkt_tokenize transcript pre s post query
          soft_max word_margin]
  unfolding query_container_iff .


text \<open>
  The example of the claim, with a query of two terms in mixed case: "Zebra HISTORY"
  starts the snippet at "History begins here.", not at "Intro sentence."; the query
  "zebra quagga" matches no sentence and the snippet starts at the first sentence.
\<close>

theorem C4_snippet_start_witness:
  "(\<exists>rest. snippet_generator example_tokenize intro_text ''Zebra HISTORY'' 50 25 False
              = ''History begins here.'' @ rest)
   \<and> snippet_generator example_tokenize intro_text ''Zebra HISTORY'' 50 25 False
       = ''History begins here. More details follow with extra words to pad length.''
   \<and> snippet_generator example_tokenize intro_text ''Zebra HISTORY'' 50 25 True
       = ''<b class=highlight>History</b> begins here. More details follow with extra words to pad length. ''
   \<and> snippet_generator example_tokenize intro_text ''history'' 50 25 True
       = ''<b class=highlight>History</b> begins here. More details follow with extra words to pad length. ''
   \<and> snippet_generator example_tokenize intro_text ''zebra quagga'' 50 25 False
       = '' Intro sentence. History begins here. More details follow with extra words to pad length.''"
proof -
  have tok: "example_tokenize intro_text
      = [''Intro sentence.''] @ ''History begins here.''
          # [''More details follow with extra words to pad length.'']"
    by (simp add: example_tokenize_def)
  have n: "\<forall>p\<in>set [''Intro sentence.'']. \<not> has_query_term ''Zebra HISTORY'' p"
    by code_simp
  have y: "has_query_term ''Zebra HISTORY'' ''History begins here.''"
    by code_simp
  have "(\<exists>rest. snippet_generator example_tokenize intro_text ''Zebra HISTORY'' 50 25 False
              = ''History begins here.'' @ rest)
      \<and> (\<exists>rest. snippet_generator example_tokenize intro_text ''Zebra HISTORY'' 50 25 True
              = match_highlighter ''Zebra HISTORY'' ''History begins here.'' @ rest)"
    by (rule mp[OF C4_snippet_starts_at_first_match[where punkt_tokenize = example_tokenize
            and transcript = intro_text and pre = "[''Intro sentence.'']"
            and s = "''History begins here.''"
            and post = "[''More details follow with extra words to pad length.'']"
            and query = "''Zebra HISTORY''" and soft_max = 50 and word_margin = 25,
            THEN conjunct1]])
       (intro conjI tok n y)
  then have a: "\<exists>rest. snippet_generator example_tokenize intro_text ''Zebra HISTORY'' 50 25 False
              = ''History begins here.'' @ rest" by (rule conjunct1)
  have b: "snippet_generator example_tokenize intro_text ''Zebra HISTORY'' 50 25 False
       = ''History begins here. More details follow with extra words to pad length.''"
    by code_simp
  have c: "snippet_generator example_tokenize intro_text ''Zebra HISTORY'' 50 25 True
       = ''<b class=highlight>History</b> begins here. More details follow with extra words to pad length. ''"
    by code_simp
  have c': "snippet_generator example_tokenize intro_text ''history'' 50 25 True
       = ''<b class=highlight>History</b> begins here. More details follow with extra words to pad length. ''"
    by code_simp
  have z: "\<forall>p\<in>set (example_tokenize intro_text). \<not> has_query_term ''zebra quagga'' p"
    by code_simp
  have e: "second_loop 50 25 [] (example_tokenize intro_text)
       = '' Intro sentence. History begins here. More details follow with extra words to pad length.''"
    by code_simp
  have "snippet_generator example_tokenize intro_text ''zebra quagga'' 50 25 False
          = second_loop 50 25 [] (example_tokenize intro_text)
        \<and> (\<forall>s1 rest. example_tokenize intro_text = s1 # rest \<longrightarrow>
              (\<exists>tail. snippet_generator example_tokenize intro_text ''zebra quagga'' 50 25 False
                 = '' '' @ (if int (length (py_split s1)) < 50 then s1
                            else py_join '' '' (py_slice_to 25 (py_split s1))) @ tail))"
    by (rule mp[OF C4_snippet_starts_at_first_match[where punkt_tokenize = example_tokenize
            and transcript = intro_text and query = "''zebra quagga''"
            and soft_max = 50 and word_margin = 25,
            THEN conjunct2, THEN conjunct1] z])
  then have "snippet_generator example_tokenize intro_text ''zebra quagga'' 50 25 False
          = second_loop 50 25 [] (example_tokenize intro_text)" by (rule conjunct1)
  then have d: "snippet_generator example_tokenize intro_text ''zebra quagga'' 50 25 False
       = '' Intro sentence. History begins here. More details follow with extra words to pad length.''"
    unfolding e .
  from a b c c' d show ?thesis by (intro conjI)
qed


lemma joined_Cons: "joined r (s # ss) = joined (r @ '' '' @ s) ss"
  by (simp add: joined_def)

lemma second_loop_closed_form:
  "\<exists>n\<le>length ss.
      (\<forall>i<n. int (length (py_split (joined r (take i ss)))) + int (length (py_split (ss ! i))) < sm)
    \<and> (n = length ss \<longrightarrow> second_loop sm wm r ss = joined r ss)
    \<and> (n < length ss \<longrightarrow>
          \<not> int (length (py_split (joined r (take n ss)))) + int (length (py_split (ss ! n))) < sm
          \<and> second_loop sm wm r ss
              = joined r (take n ss) @ '' '' @ py_join '' '' (py_slice_to wm (py_split (ss ! n))))"
proof (induction ss arbitrary: r)
  case Nil
  then show ?case by (simp add: joined_def)
next
  case (Cons s ss)
  show ?case
  proof (cases "int (length (py_split r)) + int (length (py_split s)) < sm")
    case True
    from Cons[of "r @ '' '' @ s"] obtain n where n: "n \<le> length ss"
      "\<forall>i<n. int (length (py_split (joined (r @ '' '' @ s) (take i ss))))
                + int (length (py_split (ss ! i))) < sm"
      "n = length ss \<longrightarrow> second_loop sm wm (r @ '' '' @ s) ss = joined (r @ '' '' @ s) ss"
      "n < length ss \<longrightarrow>
          \<not> int (length (py_split (joined (r @ '' '' @ s) (take n ss))))
               + int (length (py_split (ss ! n))) < sm
          \<and> second_loop sm wm (r @ '' '' @ s) ss
              = joined (r @ '' '' @ s) (take n ss) @ '' '' @ py_join '' '' (py_slice_to wm (py_split (ss ! n)))"
      by blast
    have all: "\<forall>i<Suc n. int (length (py_split (joined r (take i (s # ss)))))
                + int (length (py_split ((s # ss) ! i))) < sm"
    proof (intro allI impI)
      fix i assume "i < Suc n"
      show "int (length (py_split (joined r (take i (s # ss)))))
                + int (length (py_split ((s # ss) ! i))) < sm"
      proof (cases i)
        case 0
        with True show ?thesis by (simp add: joined_def)
      next
        case (Suc j)
        with \<open>i < Suc n\<close> have "j < n" by simp
        with n(2) Suc show ?thesis by (simp add: joined_Cons)
      qed
    qed
    have sl: "second_loop sm wm r (s # ss) = second_loop sm wm (r @ '' '' @ s) ss"
      using True by simp
    have "Suc n \<le> length (s # ss)" using n(1) by simp
    moreover have "Suc n = length (s # ss) \<longrightarrow> second_loop sm wm r (s # ss) = joined r (s # ss)"
      using n(3) sl by (simp add: joined_Cons)
    moreover have "Suc n < length (s # ss) \<longrightarrow>
          \<not> int (length (py_split (joined r (take (Suc n) (s # ss)))))
               + int (length (py_split ((s # ss) ! Suc n))) < sm
          \<and> second_loop sm wm r (s # ss)
              = joined r (take (Suc n) (s # ss)) @ '' ''
                  @ py_join '' '' (py_slice_to wm (py_split ((s # ss) ! Suc n)))"
      using n(4) sl by (simp add: joined_Cons)
    ultimately show ?thesis using all by blast
  next
    case False
    have "(0::nat) \<le> length (s # ss)" by simp
    moreover have "\<forall>i<(0::nat). int (length (py_split (joined r (take i (s # ss)))))
                + int (length (py_split ((s # ss) ! i))) < sm" by simp
    moreover have "0 = length (s # ss) \<longrightarrow> second_loop sm wm r (s # ss) = joined r (s # ss)"
      by simp
    moreover have "0 < length (s # ss) \<longrightarrow>
          \<not> int (length (py_split (joined r (take 0 (s # ss)))))
               + int (length (py_split ((s # ss) ! 0))) < sm
          \<and> second_loop sm wm r (s # ss)
              = joined r (take 0 (s # ss)) @ '' ''
                  @ py_join '' '' (py_slice_to wm (py_split ((s # ss) ! 0)))"
      using False by (simp add: joined_def)
    ultimately show ?thesis by blast
  qed
qed

lemma snippet_starting_point:
  "snippet_from_sentences sentences query sm wm False
     = (case starting_point (substrings query) sentences of (r, ss) \<Rightarrow> second_loop sm wm r ss)"
proof (cases "dropWhile (\<lambda>s. \<not> query_container (substrings query) s) sentences")
  case Nil
  then have "\<forall>p\<in>set sentences. \<not> query_container (substrings query) p"
    by (simp add: dropWhile_eq_Nil_conv)
  then have "snippet_from_sentences sentences query sm wm False = second_loop sm wm [] sentences"
    by (rule snippet_unmatched)
  moreover have "starting_point (substrings query) sentences = ([], sentences)"
    unfolding starting_point_def Nil by simp
  ultimately show ?thesis by simp
next
  case (Cons s post)
  let ?pre = "takeWhile (\<lambda>s. \<not> query_container (substrings query) s) sentences"
  have "sentences = ?pre @ s # post" using Cons by (metis takeWhile_dropWhile_id)
  moreover have "\<forall>p\<in>set ?pre. \<not> query_container (substrings query) p"
    by (metis set_takeWhileD)
  moreover have "query_container (substrings query) s"
    using Cons by (metis dropWhile_eq_Cons_conv)
  ultimately have "snippet_from_sentences sentences query sm wm False = second_loop sm wm s post"
    by (rule snippet_matched)
  moreover have "starting_point (substrings query) sentences = (s, post)"
    unfolding starting_point_def Cons by simp
  ultimately show ?thesis by simp
qed

text \<open>
  Claim C5, as stated: the overflow sentence is never included in full. With the default
  \<open>soft_max = 50\<close> and \<open>word_margin = 25\<close>, a starting sentence of 46 words followed by a
  sentence of 4 words: the second sentence crosses \<open>soft_max\<close> (46 + 4 is not below 50),
  its first 25 words are all of its words, and it appears in the snippet in full.
\<close>

theorem C5_short_overflow_sentence_counterexample:
  "\<not> int (length (py_split ''In the long history of the city the old walls were rebuilt many times by people who came from far away and who brought with them new tools and new ideas about how a town on a river should be kept safe from floods and fire.'')) + int (length (py_split ''It fell soon after.'')) < 50
   \<and> snippet_generator example_tokenize city_text ''history'' 50 25 False
       = ''In the long history of the city the old walls were rebuilt many times by people who came from far away and who brought with them new tools and new ideas about how a town on a river should be kept safe from floods and fire.'' @ '' It fell soon after.''"
  by code_simp


text \<open>
  Claim C5, amended: let \<open>r\<close> be the response at the starting point and \<open>ss\<close> the sentences
  that follow. There is a position \<open>n\<close> such that each of the first \<open>n\<close> sentences found the
  accumulated word count plus its own below \<open>soft_max\<close> and was appended in full; if \<open>n\<close>
  is the number of sentences, that is the whole snippet; otherwise sentence \<open>n\<close> crosses
  \<open>soft_max\<close>, the words \<^verbatim>\<open>sentence.split()[:word_margin]\<close> of it are appended, joined by
  single spaces, and nothing after it. For \<open>word_margin \<ge> 0\<close> these are its first
  \<open>word_margin\<close> words: all of its words when it has no more than \<open>word_margin\<close>.
\<close>

theorem C5_truncation_amended:
  "starting_point (substrings query) (punkt_tokenize transcript) = (r, ss) \<longrightarrow>
     (\<exists>n\<le>length ss.
        (\<forall>i<n. int (length (py_split (joined r (take i ss)))) + int (length (py_split (ss ! i)))
                 < soft_max)
      \<and> (n = length ss \<longrightarrow>
            snippet_generator punkt_tokenize transcript query soft_max word_margin False
              = joined r ss)
      \<and> (n < length ss \<longrightarrow>
            \<not> int (length (py_split (joined r (take n ss)))) + int (length (py_split (ss ! n)))
                < soft_max
            \<and> snippet_generator punkt_tokenize transcript query soft_max word_margin False
                = joined r (take n ss) @ '' ''
                    @ py_join '' '' (py_slice_to word_margin (py_split (ss ! n)))
            \<and> (0 \<le> word_margin \<longrightarrow>
                  py_slice_to word_margin (py_split (ss ! n))
                    = take (nat word_margin) (py_split (ss ! n)))))"
proof
  assume sp: "starting_point (substrings query) (punkt_tokenize transcript) = (r, ss)"
  have raw: "snippet_generator punkt_tokenize transcript query soft_max word_margin False
      = second_loop soft_max word_margin r ss"
    by (simp add: snippet_generator_def snippet_starting_point sp)
  have sl: "0 \<le> word_margin \<longrightarrow> py_slice_to word_margin xs = take (nat word_margin) xs"
    for xs :: "string list"
    by (simp add: py_slice_to_def)
  from second_loop_closed_form[of ss r soft_max word_margin] raw sl
  show "\<exists>n\<le>length ss.
        (\<forall>i<n. int (length (py_split (joined r (take i ss)))) + int (length (py_split (ss ! i)))
                 < soft_max)
      \<and> (n = length ss \<longrightarrow>
            snippet_generator punkt_tokenize transcript query soft_max word_margin False
              = joined r ss)
      \<and> (n < length ss \<longrightarrow>
            \<not> int (length (py_split (joined r (take n ss)))) + int (length (py_split (ss ! n)))
                < soft_max
            \<and> snippet_generator punkt_tokenize transcript query soft_max word_margin False
                = joined r (take n ss) @ '' ''
                    @ py_join '' '' (py_slice_to word_margin (py_split (ss ! n)))
            \<and> (0 \<le> word_margin \<longrightarrow>
                  py_slice_to word_margin (py_split (ss ! n))
                    = take (nat word_margin) (py_split (ss ! n))))"
    by simp
qed


theorem C5_truncation_witness:
  "(\<exists>n\<le>length [''More details follow with extra words to pad length.''].
      (\<forall>i<n. int (length (py_split (joined ''History begins here.''
                  (take i [''More details follow with extra words to pad length.''])))) 
               + int (length (py_split ([''More details follow with extra words to pad length.''] ! i)))
                 < 5)
      \<and> (n = length [''More details follow with extra words to pad length.''] \<longrightarrow>
            snippet_generator example_tokenize intro_text ''history'' 5 2 False
              = joined ''History begins here.''
                  [''More details follow with extra words to pad length.''])
      \<and> (n < length [''More details follow with extra words to pad length.''] \<longrightarrow>
            \<not> int (length (py_split (joined ''History begins here.''
                  (take n [''More details follow with extra words to pad length.'']))))
               + int (length (py_split ([''More details follow with extra words to pad length.''] ! n)))
                < 5
            \<and> snippet_generator example_tokenize intro_text ''history'' 5 2 False
                = joined ''History begins here.''
                    (take n [''More details follow with extra words to pad length.'']) @ '' ''
                    @ py_join '' '' (py_slice_to 2
                        (py_split ([''More details follow with extra words to pad length.''] ! n)))
            \<and> (0 \<le> (2::int) \<longrightarrow>
                  py_slice_to 2 (py_split ([''More details follow with extra words to pad length.''] ! n))
                    = take (nat 2)
                        (py_split ([''More details follow with extra words to pad length.''] ! n)))))
   \<and> snippet_generator example_tokenize intro_text ''history'' 5 2 False
       = ''History begins here. More details''
   \<and> snippet_generator example_tokenize intro_text ''history'' 50 25 False
       = ''History begins here. More details follow with extra words to pad length.''"
proof -
  have sp: "starting_point (substrings ''history'') (example_tokenize intro_text)
      = (''History begins here.'', [''More details follow with extra words to pad length.''])"
    by code_simp
  have a: "snippet_generator example_tokenize intro_text ''history'' 5 2 False
       = ''History begins here. More details''"
    by code_simp
  have b: "snippet_generator example_tokenize intro_text ''history'' 50 25 False
       = ''History begins here. More details follow with extra words to pad length.''"
    by code_simp
  from C5_truncation_amended[of "''history''" example_tokenize intro_text
         "''History begins here.''" "[''More details follow with extra words to pad length.'']"
         5 2] sp a b
  show ?thesis by blast
qed

end
